theory Spec2Isabelle
  imports Main "HOL-Library.Word"
begin

section \<open>Data model (models/user.go, models/session.go, audit log)\<close>

text \<open>
  A \<open>uuid.UUID\<close> is modelled as a natural number, \<open>uuid.Nil\<close> being \<open>0\<close>.
  A \<open>time.Time\<close> is an integer count of nanoseconds since the zero time of Go
  (so \<open>IsZero\<close> is equality with \<open>0\<close>), and a \<open>time.Duration\<close> is an integer count
  of nanoseconds. A nullable column or a Go pointer field is an \<open>option\<close>. The
  failed-login counter and the row counts are unbounded integers: the ranges of the
  column and of \<open>int64\<close> are far from being reached by the operations verified here.
\<close>

type_synonym uuid = nat
type_synonym time = int

definition uuid_Nil :: uuid where
  "uuid_Nil = 0"

definition Minute :: int where
  "Minute = 60 * 1000000000"

definition Hour :: int where
  "Hour = 60 * Minute"

record User =
  UserID :: uuid
  Username :: string
  Email :: string
  PasswordHash :: string
  FirstName :: string
  LastName :: string
  IsEmailVerified :: bool
  EmailVerificationToken :: "string option"
  EmailVerificationSentAt :: "time option"
  PasswordResetToken :: "string option"
  PasswordResetExpiresAt :: "time option"
  FailedLoginAttempts :: int
  LockedUntil :: "time option"
  LastLoginAt :: "time option"
  CreatedAt :: time
  UpdatedAt :: time
  IsActive :: bool

text \<open>The fields of \<open>Session\<close> that share a name with a field of \<open>User\<close> carry the suffix \<open>_s\<close>.\<close>

record Session =
  SessionID :: uuid
  UserID_s :: uuid
  Token :: string
  IPAddress :: string
  UserAgent :: string
  ExpiresAt :: time
  CreatedAt_s :: time
  LastActiveAt :: time
  IsValid :: bool

record AuditLog =
  LogID :: uuid
  UserID_a :: uuid
  EventType :: string
  IPAddress_a :: string
  UserAgent_a :: string
  Details :: "(string \<times> bool) list"
  CreatedAt_a :: time

text \<open>
  The sentinel errors of services/auth.go, \<open>pgx.ErrNoRows\<close>, and the failures of the
  collaborators: \<open>ErrDB\<close> is any failure reported by the connection pool (lost
  connection, timeout, constraint violation), \<open>ErrBcrypt\<close> a failure of the hashing
  library and \<open>ErrRand\<close> a failed read of the random source.
\<close>

datatype error =
    ErrInvalidCredentials
  | ErrUserLocked
  | ErrEmailAlreadyExists
  | ErrUsernameAlreadyExists
  | ErrUserNotFound
  | ErrInvalidToken
  | ErrNoRows
  | ErrDB string
  | ErrBcrypt string
  | ErrRand

section \<open>The world: the relational store and the other collaborators\<close>

text \<open>
  Modelled from the spec: the Postgres schema is not part of the sources; the three tables
  are those of the spec's persisted schema, each a list of rows. The remaining fields are
  the collaborators the code calls: the clock read by \<open>time.Now()\<close> and by SQL \<open>NOW()\<close>
  (one operation is taken to run at one instant), the outcome of each upcoming call to the
  connection pool (\<open>Some m\<close>: the call fails with \<open>ErrDB m\<close> and changes nothing; an
  exhausted schedule means no further failure), the number of statements sent to the pool so
  far, the upcoming results of \<open>generateSecureToken\<close> (\<open>None\<close>: the random source fails),
  the identifiers \<open>uuid.New()\<close> hands out, the behaviour of the bcrypt library, and the
  lines printed to the process log.
\<close>

record world =
  users :: "User list"
  sessions :: "Session list"
  audit_log :: "AuditLog list"
  clock :: time
  faults :: "string option list"
  stmts :: nat
  rand_src :: "string option list"
  uuid_gen :: "nat \<Rightarrow> uuid"
  uuid_count :: nat
  bcrypt_generate :: "string \<Rightarrow> error + string"
  bcrypt_compare :: "string \<Rightarrow> string \<Rightarrow> bool"
  console :: "string list"

text \<open>One round trip to the pool (\<open>QueryRow\<close>, \<open>Query\<close> or \<open>Exec\<close>): it is counted and takes
  the next entry of the fault schedule.\<close>

definition db_call :: "world \<Rightarrow> string option \<times> world" where
  "db_call w =
     (case faults w of [] \<Rightarrow> None | f # fs \<Rightarrow> f,
      w\<lparr>faults := tl (faults w), stmts := Suc (stmts w)\<rparr>)"

definition uuid_New :: "world \<Rightarrow> uuid \<times> world" where
  "uuid_New w = (uuid_gen w (uuid_count w), w\<lparr>uuid_count := Suc (uuid_count w)\<rparr>)"

definition Printf :: "string \<Rightarrow> world \<Rightarrow> world" where
  "Printf msg w = w\<lparr>console := console w @ [msg]\<rparr>"

text \<open>\<open>generateSecureToken\<close> (services/auth.go): \<open>rand.Read\<close> of \<open>length\<close> bytes, then the
  URL-safe base64 text of the bytes; the entry taken from \<open>rand_src\<close> is that text.\<close>

definition generateSecureToken :: "nat \<Rightarrow> world \<Rightarrow> (string \<times> error option) \<times> world" where
  "generateSecureToken len w =
     (case rand_src w of
        [] \<Rightarrow> (([], Some ErrRand), w)
      | None # rs \<Rightarrow> (([], Some ErrRand), w\<lparr>rand_src := rs\<rparr>)
      | Some t # rs \<Rightarrow> ((t, None), w\<lparr>rand_src := rs\<rparr>))"

section \<open>Credential store (models/user.go)\<close>

text \<open>\<open>pool.QueryRow(... FROM auth.users WHERE p).Scan\<close>: the first matching row, or
  \<open>pgx.ErrNoRows\<close>.\<close>

definition QueryRow_users :: "(User \<Rightarrow> bool) \<Rightarrow> world \<Rightarrow> (error + User) \<times> world" where
  "QueryRow_users p w =
     (case db_call w of
        (Some m, w1) \<Rightarrow> (Inl (ErrDB m), w1)
      | (None, w1) \<Rightarrow>
          (case find p (users w1) of
             None \<Rightarrow> (Inl ErrNoRows, w1)
           | Some u \<Rightarrow> (Inr u, w1)))"

text \<open>\<open>UPDATE auth.users SET ... WHERE p\<close> sent with \<open>pool.Exec\<close>.\<close>

definition Exec_users :: "(User \<Rightarrow> bool) \<Rightarrow> (User \<Rightarrow> User) \<Rightarrow> world \<Rightarrow> error option \<times> world" where
  "Exec_users p upd w =
     (case db_call w of
        (Some m, w1) \<Rightarrow> (Some (ErrDB m), w1)
      | (None, w1) \<Rightarrow>
          (None, w1\<lparr>users := map (\<lambda>u. if p u then upd u else u) (users w1)\<rparr>))"

text \<open>The tail shared by \<open>GetByID\<close>, \<open>GetByEmail\<close> and \<open>GetByUsername\<close>: the error of
  \<open>scanUser\<close> is answered with \<open>(nil, nil)\<close> when it is \<open>pgx.ErrNoRows\<close> and with
  \<open>(nil, err)\<close> otherwise.\<close>

definition scan_lookup :: "(error + User) \<times> world \<Rightarrow> (User option \<times> error option) \<times> world" where
  "scan_lookup r =
     (case r of
        (Inl e, w1) \<Rightarrow> (if e = ErrNoRows then ((None, None), w1) else ((None, Some e), w1))
      | (Inr u, w1) \<Rightarrow> ((Some u, None), w1))"

definition GetByID :: "uuid \<Rightarrow> world \<Rightarrow> (User option \<times> error option) \<times> world" where
  "GetByID userID w = scan_lookup (QueryRow_users (\<lambda>u. UserID u = userID) w)"

definition GetByEmail :: "string \<Rightarrow> world \<Rightarrow> (User option \<times> error option) \<times> world" where
  "GetByEmail email w = scan_lookup (QueryRow_users (\<lambda>u. Email u = email) w)"

definition GetByUsername :: "string \<Rightarrow> world \<Rightarrow> (User option \<times> error option) \<times> world" where
  "GetByUsername username w = scan_lookup (QueryRow_users (\<lambda>u. Username u = username) w)"

text \<open>\<open>IncrementFailedLoginAttempts\<close>: \<open>UPDATE ... SET failed_login_attempts =
  failed_login_attempts + 1, updated_at = NOW() WHERE user_id = $1 RETURNING
  failed_login_attempts\<close>, scanned into \<open>attempts\<close>; then, when \<open>attempts >= 5\<close>, a second
  statement that sets \<open>locked_until\<close>. The function returns the error only.\<close>

definition IncrementFailedLoginAttempts :: "uuid \<Rightarrow> world \<Rightarrow> error option \<times> world" where
  "IncrementFailedLoginAttempts userID w =
     (case db_call w of
        (Some m, w1) \<Rightarrow> (Some (ErrDB m), w1)
      | (None, w1) \<Rightarrow>
          (let w2 = w1\<lparr>users := map (\<lambda>u. if UserID u = userID
                         then u\<lparr>FailedLoginAttempts := FailedLoginAttempts u + 1,
                                UpdatedAt := clock w1\<rparr>
                         else u) (users w1)\<rparr>
           in case find (\<lambda>u. UserID u = userID) (users w2) of
                None \<Rightarrow> (Some ErrNoRows, w2)
              | Some r \<Rightarrow>
                  (let attempts = FailedLoginAttempts r
                   in if attempts \<ge> 5
                      then (let lockTime = clock w2 + 30 * Minute
                            in Exec_users (\<lambda>u. UserID u = userID)
                                 (\<lambda>u. u\<lparr>LockedUntil := Some lockTime, UpdatedAt := clock w2\<rparr>) w2)
                      else (None, w2))))"

text \<open>\<open>Create\<close>: hashes the password, assigns an identifier and the timestamps to the
  struct, and inserts the ten columns the statement names.\<close>

text \<open>Modelled from the spec: the schema of \<open>auth.users\<close> is not part of the sources.
  \<open>user_id\<close> is the primary key, \<open>username\<close> and \<open>email\<close> are UNIQUE (a violation
  is SQLSTATE 23505), and the columns the insert leaves out take NULL, respectively a
  counter of 0.\<close>

definition Create :: "User \<Rightarrow> string \<Rightarrow> world \<Rightarrow> (User \<times> error option) \<times> world" where
  "Create user password w =
     (case bcrypt_generate w password of
        Inl e \<Rightarrow> ((user, Some e), w)
      | Inr hashedPassword \<Rightarrow>
          (let (user1, wa) = (if UserID user = uuid_Nil
                              then (case uuid_New w of (i, w') \<Rightarrow> (user\<lparr>UserID := i\<rparr>, w'))
                              else (user, w));
               now = clock wa;
               user2 = user1\<lparr>CreatedAt := now, UpdatedAt := now\<rparr>
           in case db_call wa of
                (Some m, w1) \<Rightarrow> ((user2, Some (ErrDB m)), w1)
              | (None, w1) \<Rightarrow>
                  if list_ex (\<lambda>u. UserID u = UserID user2 \<or> Username u = Username user2
                                   \<or> Email u = Email user2) (users w1)
                  then ((user2, Some (ErrDB ''23505'')), w1)
                  else ((user2, None),
                        w1\<lparr>users := users w1 @
                          [\<lparr>UserID = UserID user2, Username = Username user2,
                            Email = Email user2, PasswordHash = hashedPassword,
                            FirstName = FirstName user2, LastName = LastName user2,
                            IsEmailVerified = IsEmailVerified user2,
                            EmailVerificationToken = None, EmailVerificationSentAt = None,
                            PasswordResetToken = None, PasswordResetExpiresAt = None,
                            FailedLoginAttempts = 0, LockedUntil = None, LastLoginAt = None,
                            CreatedAt = CreatedAt user2, UpdatedAt = UpdatedAt user2,
                            IsActive = IsActive user2\<rparr>]\<rparr>)))"

text \<open>\<open>Update\<close>: stamps \<open>UpdatedAt\<close> on the struct and overwrites every mutable column of the
  rows with the struct's \<open>user_id\<close>; \<open>RETURNING updated_at\<close> is scanned, so no row gives
  \<open>pgx.ErrNoRows\<close>.\<close>

text \<open>Modelled from the spec: the schema of \<open>auth.users\<close> is not part of the sources.
  \<open>username\<close> and \<open>email\<close> are UNIQUE: the statement fails with SQLSTATE 23505 when it
  gives the user a username (or an email) that no row of this user holds yet and a row of
  another user holds.\<close>

definition Update :: "User \<Rightarrow> world \<Rightarrow> (User \<times> error option) \<times> world" where
  "Update user w =
     (let user1 = user\<lparr>UpdatedAt := clock w\<rparr>
      in case db_call w of
           (Some m, w1) \<Rightarrow> ((user1, Some (ErrDB m)), w1)
         | (None, w1) \<Rightarrow>
             if list_ex (\<lambda>u. UserID u = UserID user1) (users w1)
             then
               if (\<not> list_ex (\<lambda>u. UserID u = UserID user1 \<and> Username u = Username user1)
                       (users w1) \<and>
                   list_ex (\<lambda>u. UserID u \<noteq> UserID user1 \<and> Username u = Username user1)
                       (users w1)) \<or>
                  (\<not> list_ex (\<lambda>u. UserID u = UserID user1 \<and> Email u = Email user1)
                       (users w1) \<and>
                   list_ex (\<lambda>u. UserID u \<noteq> UserID user1 \<and> Email u = Email user1)
                       (users w1))
               then ((user1, Some (ErrDB ''23505'')), w1)
               else ((user1, None),
                   w1\<lparr>users := map (\<lambda>u. if UserID u = UserID user1
                        then u\<lparr>Username := Username user1, Email := Email user1,
                               FirstName := FirstName user1, LastName := LastName user1,
                               IsEmailVerified := IsEmailVerified user1,
                               EmailVerificationToken := EmailVerificationToken user1,
                               EmailVerificationSentAt := EmailVerificationSentAt user1,
                               PasswordResetToken := PasswordResetToken user1,
                               PasswordResetExpiresAt := PasswordResetExpiresAt user1,
                               FailedLoginAttempts := FailedLoginAttempts user1,
                               LockedUntil := LockedUntil user1,
                               LastLoginAt := LastLoginAt user1,
                               UpdatedAt := UpdatedAt user1,
                               IsActive := IsActive user1\<rparr>
                        else u) (users w1)\<rparr>)
             else ((user1, Some ErrNoRows), w1))"

text \<open>\<open>UpdatePassword\<close>: one \<open>UPDATE\<close> that sets \<open>password_hash\<close> and sets
  \<open>password_reset_token\<close> and \<open>password_reset_expires_at\<close> to NULL.\<close>

definition UpdatePassword :: "uuid \<Rightarrow> string \<Rightarrow> world \<Rightarrow> error option \<times> world" where
  "UpdatePassword userID newPassword w =
     (case bcrypt_generate w newPassword of
        Inl e \<Rightarrow> (Some e, w)
      | Inr hashedPassword \<Rightarrow>
          Exec_users (\<lambda>u. UserID u = userID)
            (\<lambda>u. u\<lparr>PasswordHash := hashedPassword, PasswordResetToken := None,
                   PasswordResetExpiresAt := None, UpdatedAt := clock w\<rparr>) w)"

definition VerifyPassword :: "world \<Rightarrow> User \<Rightarrow> string \<Rightarrow> bool" where
  "VerifyPassword w user password = bcrypt_compare w (PasswordHash user) password"

definition RecordLogin :: "uuid \<Rightarrow> world \<Rightarrow> error option \<times> world" where
  "RecordLogin userID w =
     (let now = clock w
      in Exec_users (\<lambda>u. UserID u = userID)
           (\<lambda>u. u\<lparr>LastLoginAt := Some now, FailedLoginAttempts := 0,
                  LockedUntil := None, UpdatedAt := now\<rparr>) w)"

section \<open>Session store (models/session.go)\<close>

definition QueryRow_sessions :: "(Session \<Rightarrow> bool) \<Rightarrow> world \<Rightarrow> (error + Session) \<times> world" where
  "QueryRow_sessions p w =
     (case db_call w of
        (Some m, w1) \<Rightarrow> (Inl (ErrDB m), w1)
      | (None, w1) \<Rightarrow>
          (case find p (sessions w1) of
             None \<Rightarrow> (Inl ErrNoRows, w1)
           | Some s \<Rightarrow> (Inr s, w1)))"

definition Exec_sessions ::
  "(Session \<Rightarrow> bool) \<Rightarrow> (Session \<Rightarrow> Session) \<Rightarrow> world \<Rightarrow> error option \<times> world" where
  "Exec_sessions p upd w =
     (case db_call w of
        (Some m, w1) \<Rightarrow> (Some (ErrDB m), w1)
      | (None, w1) \<Rightarrow>
          (None, w1\<lparr>sessions := map (\<lambda>s. if p s then upd s else s) (sessions w1)\<rparr>))"

text \<open>\<open>Create\<close> of the session store: assigns an identifier when the struct has none,
  fills the zero timestamps, and inserts the row.\<close>

text \<open>Modelled from the spec: the schema of \<open>auth.sessions\<close> is not part of the sources.
  \<open>session_id\<close> is the primary key and \<open>token\<close> is UNIQUE (SQLSTATE 23505), and
  \<open>user_id\<close> is a foreign key into the users (SQLSTATE 23503).\<close>

definition Create_s :: "Session \<Rightarrow> world \<Rightarrow> (Session \<times> error option) \<times> world" where
  "Create_s session w =
     (let (session1, wa) = (if SessionID session = uuid_Nil
                            then (case uuid_New w of (i, w') \<Rightarrow> (session\<lparr>SessionID := i\<rparr>, w'))
                            else (session, w));
          now = clock wa;
          session2 = (if CreatedAt_s session1 = 0 then session1\<lparr>CreatedAt_s := now\<rparr>
                      else session1);
          session3 = (if LastActiveAt session2 = 0 then session2\<lparr>LastActiveAt := now\<rparr>
                      else session2)
      in case db_call wa of
           (Some m, w1) \<Rightarrow> ((session3, Some (ErrDB m)), w1)
         | (None, w1) \<Rightarrow>
             if list_ex (\<lambda>s. SessionID s = SessionID session3 \<or> Token s = Token session3)
                  (sessions w1)
             then ((session3, Some (ErrDB ''23505'')), w1)
             else if \<not> list_ex (\<lambda>u. UserID u = UserID_s session3) (users w1)
             then ((session3, Some (ErrDB ''23503'')), w1)
             else ((session3, None), w1\<lparr>sessions := sessions w1 @ [session3]\<rparr>))"

definition GetByToken :: "string \<Rightarrow> world \<Rightarrow> (Session option \<times> error option) \<times> world" where
  "GetByToken token w =
     (case QueryRow_sessions (\<lambda>s. Token s = token) w of
        (Inl e, w1) \<Rightarrow> (if e = ErrNoRows then ((None, None), w1) else ((None, Some e), w1))
      | (Inr s, w1) \<Rightarrow> ((Some s, None), w1))"

definition Invalidate :: "string \<Rightarrow> world \<Rightarrow> error option \<times> world" where
  "Invalidate token w =
     Exec_sessions (\<lambda>s. Token s = token)
       (\<lambda>s. s\<lparr>IsValid := False, LastActiveAt := clock w\<rparr>) w"

definition UpdateLastActiveAt :: "uuid \<Rightarrow> world \<Rightarrow> error option \<times> world" where
  "UpdateLastActiveAt sessionID w =
     Exec_sessions (\<lambda>s. SessionID s = sessionID) (\<lambda>s. s\<lparr>LastActiveAt := clock w\<rparr>) w"

text \<open>\<open>DELETE FROM auth.sessions WHERE expires_at < NOW()\<close>, returning the rows affected.\<close>

definition DeleteExpiredSessions :: "world \<Rightarrow> (int \<times> error option) \<times> world" where
  "DeleteExpiredSessions w =
     (case db_call w of
        (Some m, w1) \<Rightarrow> ((0, Some (ErrDB m)), w1)
      | (None, w1) \<Rightarrow>
          ((int (length (filter (\<lambda>s. ExpiresAt s < clock w1) (sessions w1))), None),
           w1\<lparr>sessions := filter (\<lambda>s. \<not> ExpiresAt s < clock w1) (sessions w1)\<rparr>))"

section \<open>Auth service (services/auth.go)\<close>

record AuthService =
  jwtSecret :: string
  tokenExpiryMin :: int

text \<open>\<open>time.Duration(n) * time.Minute\<close>: a product of 64-bit signed integers, which wraps.\<close>

definition Duration_Minutes :: "int \<Rightarrow> int" where
  "Duration_Minutes n = sint ((word_of_int n :: 64 word) * word_of_int Minute)"

text \<open>\<open>createAuditLog\<close>: the insert leaves \<open>log_id\<close> and \<open>created_at\<close> to the column
  defaults of the store (a new identifier, \<open>NOW()\<close>) and scans the identifier back.\<close>

definition createAuditLog :: "AuditLog \<Rightarrow> world \<Rightarrow> (uuid \<times> error option) \<times> world" where
  "createAuditLog lg w =
     (case db_call w of
        (Some m, w1) \<Rightarrow> ((uuid_Nil, Some (ErrDB m)), w1)
      | (None, w1) \<Rightarrow>
          (case uuid_New w1 of
             (logID, w2) \<Rightarrow>
               ((logID, None),
                w2\<lparr>audit_log := audit_log w2 @
                      [lg\<lparr>LogID := logID, CreatedAt_a := clock w2\<rparr>]\<rparr>)))"

definition Login ::
  "AuthService \<Rightarrow> string \<Rightarrow> string \<Rightarrow> string \<Rightarrow> string \<Rightarrow> world \<Rightarrow> (error + Session) \<times> world" where
  "Login s usernameOrEmail password ipAddress userAgent w =
     (case GetByEmail usernameOrEmail w of
        ((user0, err0), w1) \<Rightarrow>
     (case (if user0 = None then GetByUsername usernameOrEmail w1 else ((user0, err0), w1)) of
        ((user1, err), w2) \<Rightarrow>
     (case err of
        Some e \<Rightarrow> (Inl e, w2)
      | None \<Rightarrow>
     (case user1 of
        None \<Rightarrow> (Inl ErrInvalidCredentials, w2)
      | Some user \<Rightarrow>
          if (case LockedUntil user of None \<Rightarrow> False | Some t \<Rightarrow> clock w2 < t)
          then (Inl ErrUserLocked, w2)
          else if \<not> VerifyPassword w2 user password
          then (case IncrementFailedLoginAttempts (UserID user) w2 of
                  (Some e, w3) \<Rightarrow> (Inl e, w3)
                | (None, w3) \<Rightarrow> (Inl ErrInvalidCredentials, w3))
          else
     (case generateSecureToken 32 w2 of
        ((token, Some e), w3) \<Rightarrow> (Inl e, w3)
      | ((token, None), w3) \<Rightarrow>
          (let expiryTime = clock w3 + Duration_Minutes (tokenExpiryMin s);
               session = \<lparr>SessionID = uuid_Nil, UserID_s = UserID user, Token = token,
                          IPAddress = ipAddress, UserAgent = userAgent,
                          ExpiresAt = expiryTime, CreatedAt_s = 0, LastActiveAt = 0,
                          IsValid = True\<rparr>
           in case Create_s session w3 of
                ((session', Some e), w4) \<Rightarrow> (Inl e, w4)
              | ((session', None), w4) \<Rightarrow>
     (case RecordLogin (UserID user) w4 of
        (Some e, w5) \<Rightarrow> (Inl e, w5)
      | (None, w5) \<Rightarrow>
          (let auditLog = \<lparr>LogID = uuid_Nil, UserID_a = UserID user, EventType = ''login'',
                           IPAddress_a = ipAddress, UserAgent_a = userAgent,
                           Details = [(''successful'', True)], CreatedAt_a = 0\<rparr>
           in case createAuditLog auditLog w5 of
                ((logID, Some e), w6) \<Rightarrow> (Inr session', Printf ''Error creating audit log'' w6)
              | ((logID, None), w6) \<Rightarrow> (Inr session', w6)))))))))"

definition Register ::
  "string \<Rightarrow> string \<Rightarrow> string \<Rightarrow> string \<Rightarrow> string \<Rightarrow> world \<Rightarrow> (error + User) \<times> world" where
  "Register username email password firstName lastName w =
     (case GetByEmail email w of
        ((existingUser, Some e), w1) \<Rightarrow> (Inl e, w1)
      | ((Some existingUser, None), w1) \<Rightarrow> (Inl ErrEmailAlreadyExists, w1)
      | ((None, None), w1) \<Rightarrow>
     (case GetByUsername username w1 of
        ((existingUser, Some e), w2) \<Rightarrow> (Inl e, w2)
      | ((Some existingUser, None), w2) \<Rightarrow> (Inl ErrUsernameAlreadyExists, w2)
      | ((None, None), w2) \<Rightarrow>
     (case generateSecureToken 32 w2 of
        ((verificationToken, Some e), w3) \<Rightarrow> (Inl e, w3)
      | ((verificationToken, None), w3) \<Rightarrow>
          (let now = clock w3;
               user = \<lparr>UserID = uuid_Nil, Username = username, Email = email,
                       PasswordHash = [], FirstName = firstName, LastName = lastName,
                       IsEmailVerified = False,
                       EmailVerificationToken = Some verificationToken,
                       EmailVerificationSentAt = Some now,
                       PasswordResetToken = None, PasswordResetExpiresAt = None,
                       FailedLoginAttempts = 0, LockedUntil = None, LastLoginAt = None,
                       CreatedAt = 0, UpdatedAt = 0, IsActive = True\<rparr>
           in case Create user password w3 of
                ((user', Some e), w4) \<Rightarrow> (Inl e, w4)
              | ((user', None), w4) \<Rightarrow> (Inr user', w4)))))"

definition Logout :: "string \<Rightarrow> world \<Rightarrow> error option \<times> world" where
  "Logout token w = Invalidate token w"

definition ValidateSession :: "string \<Rightarrow> world \<Rightarrow> (error + Session \<times> User) \<times> world" where
  "ValidateSession token w =
     (case GetByToken token w of
        ((session0, Some e), w1) \<Rightarrow> (Inl e, w1)
      | ((None, None), w1) \<Rightarrow> (Inl ErrInvalidToken, w1)
      | ((Some session, None), w1) \<Rightarrow>
          if \<not> IsValid session \<or> clock w1 > ExpiresAt session
          then (Inl ErrInvalidToken, w1)
          else
     (case GetByID (UserID_s session) w1 of
        ((user0, Some e), w2) \<Rightarrow> (Inl e, w2)
      | ((None, None), w2) \<Rightarrow> (Inl ErrUserNotFound, w2)
      | ((Some user, None), w2) \<Rightarrow>
          if \<not> IsActive user then (Inl ErrUserNotFound, w2)
          else
     (case UpdateLastActiveAt (SessionID session) w2 of
        (Some e, w3) \<Rightarrow>
          (Inr (session, user), Printf ''Error updating session last active time'' w3)
      | (None, w3) \<Rightarrow> (Inr (session, user), w3))))"

text \<open>\<open>VerifyEmail\<close>: any error of the lookup's \<open>Scan\<close> is answered with \<open>ErrInvalidToken\<close>.\<close>

definition VerifyEmail :: "string \<Rightarrow> world \<Rightarrow> error option \<times> world" where
  "VerifyEmail token w =
     (case QueryRow_users
             (\<lambda>u. EmailVerificationToken u = Some token \<and> IsEmailVerified u = False) w of
        (Inl e, w1) \<Rightarrow> (Some ErrInvalidToken, w1)
      | (Inr u, w1) \<Rightarrow>
          Exec_users (\<lambda>r. UserID r = UserID u)
            (\<lambda>r. r\<lparr>IsEmailVerified := True, EmailVerificationToken := None,
                   UpdatedAt := clock w1\<rparr>) w1)"

definition ForgotPassword :: "string \<Rightarrow> world \<Rightarrow> (string \<times> error option) \<times> world" where
  "ForgotPassword email w =
     (case GetByEmail email w of
        ((user0, Some e), w1) \<Rightarrow> (([], Some e), w1)
      | ((None, None), w1) \<Rightarrow> (([], None), w1)
      | ((Some user, None), w1) \<Rightarrow>
     (case generateSecureToken 32 w1 of
        ((resetToken, Some e), w2) \<Rightarrow> (([], Some e), w2)
      | ((resetToken, None), w2) \<Rightarrow>
          (let expiryTime = clock w2 + 24 * Hour;
               user' = user\<lparr>PasswordResetToken := Some resetToken,
                            PasswordResetExpiresAt := Some expiryTime\<rparr>
           in case Update user' w2 of
                ((user'', Some e), w3) \<Rightarrow> (([], Some e), w3)
              | ((user'', None), w3) \<Rightarrow> ((resetToken, None), w3))))"

text \<open>\<open>ResetPassword\<close>: the lookup matches \<open>password_reset_token = $1 AND
  password_reset_expires_at > NOW()\<close>; a NULL column matches nothing.\<close>

definition ResetPassword :: "string \<Rightarrow> string \<Rightarrow> world \<Rightarrow> error option \<times> world" where
  "ResetPassword token newPassword w =
     (case QueryRow_users
             (\<lambda>u. PasswordResetToken u = Some token \<and>
                   (case PasswordResetExpiresAt u of None \<Rightarrow> False | Some t \<Rightarrow> t > clock w)) w of
        (Inl e, w1) \<Rightarrow> (Some ErrInvalidToken, w1)
      | (Inr u, w1) \<Rightarrow> UpdatePassword (UserID u) newPassword w1)"

definition ChangePassword :: "uuid \<Rightarrow> string \<Rightarrow> string \<Rightarrow> world \<Rightarrow> error option \<times> world" where
  "ChangePassword userID currentPassword newPassword w =
     (case GetByID userID w of
        ((user0, Some e), w1) \<Rightarrow> (Some e, w1)
      | ((None, None), w1) \<Rightarrow> (Some ErrUserNotFound, w1)
      | ((Some user, None), w1) \<Rightarrow>
          if \<not> VerifyPassword w1 user currentPassword then (Some ErrInvalidCredentials, w1)
          else UpdatePassword userID newPassword w1)"

section \<open>Cleanup task (main.go)\<close>

text \<open>
  The contexts main.go builds, and what the process can observe while the cleanup
  goroutine waits in its \<open>select\<close>: the hourly ticker fires, a context is cancelled (or
  its deadline passes), or SIGINT/SIGTERM reaches the \<open>quit\<close> channel of \<open>main\<close>.
  \<open>context.Background()\<close> is never cancelled: its \<open>Done()\<close> channel never becomes ready.
\<close>

datatype Context = Background | WithTimeout nat

datatype event = TickerFired | ContextCancelled nat | ShutdownSignal

fun Done :: "Context \<Rightarrow> event \<Rightarrow> bool" where
  "Done Background e = False"
| "Done (WithTimeout k) e = (e = ContextCancelled k)"

text \<open>\<open>scheduleSessionCleanup\<close>: the result is \<open>True\<close> when the function has returned and
  \<open>False\<close> when it still waits in the \<open>select\<close> after the events given.\<close>

fun scheduleSessionCleanup :: "Context \<Rightarrow> event list \<Rightarrow> world \<Rightarrow> bool \<times> world" where
  "scheduleSessionCleanup ctx [] w = (False, w)"
| "scheduleSessionCleanup ctx (e # es) w =
     (if e = TickerFired
      then (case DeleteExpiredSessions w of
              ((count, Some err), w1) \<Rightarrow>
                scheduleSessionCleanup ctx es (Printf ''Error cleaning up expired sessions'' w1)
            | ((count, None), w1) \<Rightarrow>
                scheduleSessionCleanup ctx es
                  (if count > 0 then Printf ''Cleaned up expired sessions'' w1 else w1))
      else if Done ctx e then (True, w)
      else scheduleSessionCleanup ctx es w)"

text \<open>\<open>main\<close> starts the task with \<open>ctx := context.Background()\<close>
  (\<open>go scheduleSessionCleanup(ctx, sessionRepo)\<close>); the context with a timeout that \<open>main\<close>
  creates after the shutdown signal is passed to \<open>srv.Shutdown\<close> only.\<close>

definition main_cleanup :: "event list \<Rightarrow> world \<Rightarrow> bool \<times> world" where
  "main_cleanup es w = scheduleSessionCleanup Background es w"

section \<open>Reading the fault schedule\<close>

text \<open>The outcome of the next call to the pool, and the world once that call is made.\<close>

definition next_fault :: "world \<Rightarrow> string option" where
  "next_fault w = fst (db_call w)"

definition after_call :: "world \<Rightarrow> world" where
  "after_call w = snd (db_call w)"

section \<open>Example worlds\<close>

text \<open>The bcrypt library of the examples tags the password; any other behaviour of the
  library is covered by the general theorems, which hold for every \<open>bcrypt_generate\<close> and
  \<open>bcrypt_compare\<close>.\<close>

definition alice :: User where
  "alice = \<lparr>UserID = 1, Username = ''alice'', Email = ''alice@example.com'',
            PasswordHash = ''bcrypt:Secret123!'', FirstName = ''Alice'', LastName = ''Liddell'',
            IsEmailVerified = False, EmailVerificationToken = None,
            EmailVerificationSentAt = None, PasswordResetToken = None,
            PasswordResetExpiresAt = None, FailedLoginAttempts = 0, LockedUntil = None,
            LastLoginAt = None, CreatedAt = 1000, UpdatedAt = 1000, IsActive = True\<rparr>"

definition world0 :: world where
  "world0 = \<lparr>users = [alice], sessions = [], audit_log = [], clock = 5000, faults = [],
             stmts = 0, rand_src = [Some ''token-1'', Some ''token-2''],
             uuid_gen = (\<lambda>n. 100 + n), uuid_count = 0,
             bcrypt_generate = (\<lambda>p. Inr (''bcrypt:'' @ p)),
             bcrypt_compare = (\<lambda>h p. h = ''bcrypt:'' @ p), console = []\<rparr>"

text \<open>Alice after four failed attempts; the second statement sent to the pool will fail.\<close>

definition world_c1 :: world where
  "world_c1 = world0\<lparr>users := [alice\<lparr>FailedLoginAttempts := 4\<rparr>],
                     faults := [None, Some ''connection reset'']\<rparr>"

text \<open>A session of Alice that expires at instant 6000, in a world whose clock reads \<open>t\<close>.\<close>

definition session1 :: Session where
  "session1 = \<lparr>SessionID = 7, UserID_s = 1, Token = ''token-0'', IPAddress = ''10.0.0.1'',
               UserAgent = ''curl'', ExpiresAt = 6000, CreatedAt_s = 2000,
               LastActiveAt = 2000, IsValid = True\<rparr>"

definition world_c2 :: "time \<Rightarrow> world" where
  "world_c2 t = world0\<lparr>sessions := [session1], clock := t\<rparr>"

text \<open>The service as \<open>main\<close> configures it by default, and Alice locked until instant 9000.\<close>

definition auth :: AuthService where
  "auth = \<lparr>jwtSecret = ''your-secret-key'', tokenExpiryMin = 60\<rparr>"

definition world_c3 :: world where
  "world_c3 = world0\<lparr>users := [alice\<lparr>FailedLoginAttempts := 5, LockedUntil := Some 9000\<rparr>]\<rparr>"

text \<open>A run of logins for one identifier, one password after the other.\<close>

fun Login_each :: "AuthService \<Rightarrow> string \<Rightarrow> string list \<Rightarrow> world \<Rightarrow> (error + Session) list \<times> world" where
  "Login_each s ident [] w = ([], w)"
| "Login_each s ident (p # ps) w =
     (case Login s ident p ''10.0.0.1'' ''curl'' w of
        (r, w1) \<Rightarrow> (case Login_each s ident ps w1 of (rs, w2) \<Rightarrow> (r # rs, w2)))"

text \<open>Alice with a pending verification token and a pending reset token; the next call
  to the pool fails.\<close>

definition world_c4 :: world where
  "world_c4 = world0\<lparr>users := [alice\<lparr>EmailVerificationToken := Some ''verify-1'',
                                       PasswordResetToken := Some ''reset-1'',
                                       PasswordResetExpiresAt := Some 9000\<rparr>],
                     faults := [Some ''connection refused'']\<rparr>"

text \<open>The third call to the pool (the write of \<open>RecordLogin\<close>) fails.\<close>

definition world_c10 :: world where
  "world_c10 = world0\<lparr>faults := [None, None, Some ''connection reset'']\<rparr>"

definition session_c10 :: Session where
  "session_c10 = \<lparr>SessionID = 100, UserID_s = 1, Token = ''token-1'', IPAddress = ''10.0.0.1'',
                  UserAgent = ''curl'', ExpiresAt = 5000 + 3600000000000, CreatedAt_s = 5000,
                  LastActiveAt = 5000, IsValid = True\<rparr>"

text \<open>Alice with a pending reset token and a reachable store.\<close>

definition world_c7 :: world where
  "world_c7 = world_c4\<lparr>faults := []\<rparr>"

text \<open>Two sessions, the second one already invalid.\<close>

definition world_c8 :: world where
  "world_c8 = world0\<lparr>sessions := [session1,
       session1\<lparr>SessionID := 8, Token := ''token-8'', IsValid := False\<rparr>]\<rparr>"

text \<open>A second user beside Alice.\<close>

definition bob :: User where
  "bob = alice\<lparr>UserID := 2, Username := ''bob'', Email := ''bob@example.com''\<rparr>"

text \<open>The same sessions; the second call to the pool will fail.\<close>

definition world_c8_late_fault :: world where
  "world_c8_late_fault = world_c8\<lparr>faults := [None, Some ''connection reset'']\<rparr>"

text \<open>\<open>Logout\<close> called once at each of the given instants, one call after the other.\<close>

fun Logout_at :: "time list \<Rightarrow> string \<Rightarrow> world \<Rightarrow> error option list \<times> world" where
  "Logout_at [] token w = ([], w)"
| "Logout_at (t # ts) token w =
     (case Logout token (w\<lparr>clock := t\<rparr>) of
        (err, w1) \<Rightarrow> (case Logout_at ts token w1 of (errs, w2) \<Rightarrow> (err # errs, w2)))"

text \<open>The session of \<open>world_c2\<close> has expired; the first delete of the cleanup task will fail.\<close>

definition world_c9 :: world where
  "world_c9 = (world_c2 7000)\<lparr>faults := [Some ''connection reset'']\<rparr>"

section \<open>Basic facts about the pool\<close>

lemma db_call_eq: "db_call w = (next_fault w, after_call w)"
  by (simp add: next_fault_def after_call_def)

lemma next_fault_eq: "next_fault w = (case faults w of [] \<Rightarrow> None | f # fs \<Rightarrow> f)"
  by (simp add: next_fault_def db_call_def)

lemma after_call_eq: "after_call w = w\<lparr>faults := tl (faults w), stmts := Suc (stmts w)\<rparr>"
  by (simp add: after_call_def db_call_def)

lemma after_call_fields [simp]:
  "users (after_call w) = users w"
  "sessions (after_call w) = sessions w"
  "audit_log (after_call w) = audit_log w"
  "clock (after_call w) = clock w"
  "rand_src (after_call w) = rand_src w"
  "uuid_gen (after_call w) = uuid_gen w"
  "uuid_count (after_call w) = uuid_count w"
  "bcrypt_generate (after_call w) = bcrypt_generate w"
  "bcrypt_compare (after_call w) = bcrypt_compare w"
  "console (after_call w) = console w"
  "stmts (after_call w) = Suc (stmts w)"
  "faults (after_call w) = tl (faults w)"
  by (simp_all add: after_call_eq)

lemma users_update_call [simp]:
  "next_fault (w\<lparr>users := us\<rparr>) = next_fault w"
  "after_call (w\<lparr>users := us\<rparr>) = (after_call w)\<lparr>users := us\<rparr>"
  by (simp_all add: next_fault_eq after_call_eq)

lemma find_bump:
  "find (\<lambda>u. UserID u = uid) (map (\<lambda>r. if UserID r = uid then g r else r) xs)
     = map_option g (find (\<lambda>u. UserID u = uid) xs)" if "\<And>r. UserID (g r) = UserID r"
  using that by (induction xs) auto

lemma Exec_users_eq:
  "Exec_users p upd w =
     (case next_fault w of
        Some m \<Rightarrow> (Some (ErrDB m), after_call w)
      | None \<Rightarrow> (None, (after_call w)\<lparr>users := map (\<lambda>u. if p u then upd u else u) (users w)\<rparr>))"
  by (simp add: Exec_users_def db_call_eq split: option.splits)

lemma lookup_users_eq:
  "scan_lookup (QueryRow_users p w) =
     (case next_fault w of
        Some m \<Rightarrow> ((None, Some (ErrDB m)), after_call w)
      | None \<Rightarrow> ((find p (users w), None), after_call w))"
  by (simp add: scan_lookup_def QueryRow_users_def db_call_eq split: option.splits)

lemma GetByToken_eq:
  "GetByToken token w =
     (case next_fault w of
        Some m \<Rightarrow> ((None, Some (ErrDB m)), after_call w)
      | None \<Rightarrow> ((find (\<lambda>s. Token s = token) (sessions w), None), after_call w))"
  by (simp add: GetByToken_def QueryRow_sessions_def db_call_eq split: option.splits)

lemma Exec_sessions_eq:
  "Exec_sessions p upd w =
     (case next_fault w of
        Some m \<Rightarrow> (Some (ErrDB m), after_call w)
      | None \<Rightarrow>
          (None, (after_call w)\<lparr>sessions := map (\<lambda>s. if p s then upd s else s) (sessions w)\<rparr>))"
  by (simp add: Exec_sessions_def db_call_eq split: option.splits)

lemma GetByEmail_eq:
  "GetByEmail email w =
     (case next_fault w of
        Some m \<Rightarrow> ((None, Some (ErrDB m)), after_call w)
      | None \<Rightarrow> ((find (\<lambda>u. Email u = email) (users w), None), after_call w))"
  by (simp add: GetByEmail_def lookup_users_eq)

lemma GetByUsername_eq:
  "GetByUsername username w =
     (case next_fault w of
        Some m \<Rightarrow> ((None, Some (ErrDB m)), after_call w)
      | None \<Rightarrow> ((find (\<lambda>u. Username u = username) (users w), None), after_call w))"
  by (simp add: GetByUsername_def lookup_users_eq)

lemma GetByEmail_world:
  "snd (GetByEmail email w) = after_call w"
  by (simp add: GetByEmail_eq split: option.splits)

lemma GetByUsername_world:
  "snd (GetByUsername username w) = after_call w"
  by (simp add: GetByUsername_eq split: option.splits)

lemma Create_s_success:
  assumes "Create_s session w = ((session', None), w')"
  shows "sessions w' = sessions w @ [session']"
    and "find (\<lambda>x. Token x = Token session) (sessions w) = None"
    and "Token session' = Token session"
    and "IsValid session' = IsValid session"
    and "UserID_s session' = UserID_s session"
    and "ExpiresAt session' = ExpiresAt session"
    and "users w' = users w"
    and "clock w' = clock w"
  using assms
  by (auto simp: Create_s_def Let_def db_call_eq uuid_New_def list_ex_iff find_None_iff
      split: if_splits option.splits prod.splits)

lemma RecordLogin_failure:
  "RecordLogin uid w = (Some e, w') \<Longrightarrow> w' = after_call w"
  by (auto simp: RecordLogin_def Let_def Exec_users_eq split: option.splits)

lemma find_append_new:
  "find P xs = None \<Longrightarrow> P y \<Longrightarrow> find P (xs @ [y]) = Some y"
  by (induction xs) (auto split: if_splits)

lemma Duration_Minutes_60: "Duration_Minutes 60 = 3600000000000"
  by (simp add: Duration_Minutes_def Minute_def)

lemma call_update [simp]:
  "next_fault (w\<lparr>rand_src := rs\<rparr>) = next_fault w"
  "after_call (w\<lparr>rand_src := rs\<rparr>) = (after_call w)\<lparr>rand_src := rs\<rparr>"
  "next_fault (w\<lparr>sessions := ss\<rparr>) = next_fault w"
  "after_call (w\<lparr>sessions := ss\<rparr>) = (after_call w)\<lparr>sessions := ss\<rparr>"
  "next_fault (w\<lparr>clock := t\<rparr>) = next_fault w"
  "after_call (w\<lparr>clock := t\<rparr>) = (after_call w)\<lparr>clock := t\<rparr>"
  "next_fault (w\<lparr>console := c\<rparr>) = next_fault w"
  "after_call (w\<lparr>console := c\<rparr>) = (after_call w)\<lparr>console := c\<rparr>"
  by (simp_all add: next_fault_eq after_call_eq)

lemma UpdatePassword_eq:
  "UpdatePassword uid pw w =
     (case bcrypt_generate w pw of
        Inl e \<Rightarrow> (Some e, w)
      | Inr h \<Rightarrow>
          (case next_fault w of
             Some m \<Rightarrow> (Some (ErrDB m), after_call w)
           | None \<Rightarrow>
               (None, (after_call w)\<lparr>users := map (\<lambda>u. if UserID u = uid
                       then u\<lparr>PasswordHash := h, PasswordResetToken := None,
                              PasswordResetExpiresAt := None, UpdatedAt := clock w\<rparr>
                       else u) (users w)\<rparr>)))"
  by (simp add: UpdatePassword_def Exec_users_eq split: sum.splits)

lemma ResetPassword_found:
  "next_fault w = None \<Longrightarrow>
   find (\<lambda>u. PasswordResetToken u = Some token \<and>
              (case PasswordResetExpiresAt u of None \<Rightarrow> False | Some t \<Rightarrow> t > clock w))
     (users w) = Some u \<Longrightarrow>
   ResetPassword token pw w = UpdatePassword (UserID u) pw (after_call w)"
  by (simp add: ResetPassword_def QueryRow_users_def db_call_eq)

lemma ChangePassword_verified:
  "next_fault w = None \<Longrightarrow> find (\<lambda>u. UserID u = uid) (users w) = Some u \<Longrightarrow>
   VerifyPassword w u cur \<Longrightarrow>
   ChangePassword uid cur pw w = UpdatePassword uid pw (after_call w)"
  by (simp add: ChangePassword_def GetByID_def lookup_users_eq VerifyPassword_def)

lemma row_after_write:
  fixes xs :: "User list"
  assumes "r \<in> set (map (\<lambda>u. if UserID u = uid
                       then u\<lparr>PasswordHash := h, PasswordResetToken := None,
                              PasswordResetExpiresAt := None, UpdatedAt := t\<rparr>
                       else u) xs)" and "UserID r = uid"
  shows "PasswordHash r = h \<and> PasswordResetToken r = None \<and> PasswordResetExpiresAt r = None"
proof -
  let ?f = "\<lambda>u. if UserID u = uid
                       then u\<lparr>PasswordHash := h, PasswordResetToken := None,
                              PasswordResetExpiresAt := None, UpdatedAt := t\<rparr>
                       else u"
  from assms(1) have "r \<in> ?f ` set xs" by (simp only: set_map)
  then obtain u where u: "u \<in> set xs" "r = ?f u" by (rule imageE)
  show ?thesis
  proof (cases "UserID u = uid")
    case True
    with u(2) have "r = u\<lparr>PasswordHash := h, PasswordResetToken := None,
                 PasswordResetExpiresAt := None, UpdatedAt := t\<rparr>" by (simp only: if_True simp_thms)
    then show ?thesis by simp
  next
    case False
    with u(2) have "r = u" by (simp only: if_False simp_thms)
    with False assms(2) show ?thesis by simp
  qed
qed

lemma Update_checks_unique_email:
  "snd (fst (Update (alice\<lparr>Email := ''bob@example.com''\<rparr>) (world0\<lparr>users := [alice, bob]\<rparr>)))
     = Some (ErrDB ''23505'') \<and>
   snd (fst (Update (alice\<lparr>FirstName := ''Al''\<rparr>) (world0\<lparr>users := [alice, bob]\<rparr>))) = None"
  by (simp add: Update_def Let_def db_call_def world0_def alice_def bob_def)

lemma find_after_update:
  assumes "find P xs = Some u" and "\<And>r. Q r \<Longrightarrow> P (f r)" and "Q u"
  shows "\<exists>r. Q r \<and> find P (map (\<lambda>r. if Q r then f r else r) xs) = Some (f r)"
  using assms by (induction xs) (auto split: if_splits)

lemma find_Some_mem: "find P xs = Some u \<Longrightarrow> u \<in> set xs \<and> P u"
  by (induction xs) (auto split: if_splits)

lemma Logout_eq:
  "Logout token w =
     (case next_fault w of
        Some m \<Rightarrow> (Some (ErrDB m), after_call w)
      | None \<Rightarrow>
          (None, (after_call w)\<lparr>sessions := map (\<lambda>s. if Token s = token
                   then s\<lparr>IsValid := False, LastActiveAt := clock w\<rparr> else s) (sessions w)\<rparr>))"
  by (simp add: Logout_def Invalidate_def Exec_sessions_eq)

lemma no_fault_next:
  "set (take (Suc n) (faults w)) \<subseteq> {None} \<Longrightarrow> next_fault w = None"
  by (cases "faults w") (simp_all add: next_fault_eq)

lemma no_fault_after:
  "set (take (Suc n) (faults w)) \<subseteq> {None} \<Longrightarrow>
   set (take n (faults (after_call w))) \<subseteq> {None}"
  by (cases "faults w") simp_all

lemma invalidate_twice:
  fixes ss :: "Session list"
  shows "map (\<lambda>s. if Token s = token then s\<lparr>IsValid := False, LastActiveAt := t'\<rparr> else s)
          (map (\<lambda>s. if Token s = token then s\<lparr>IsValid := False, LastActiveAt := t\<rparr> else s) ss)
         = map (\<lambda>s. if Token s = token then s\<lparr>IsValid := False, LastActiveAt := t'\<rparr> else s) ss"
  by (induction ss) simp_all

lemma Logout_at_sessions:
  assumes "set (take (length ts) (faults w)) \<subseteq> {None}"
  shows "fst (Logout_at ts token w) = replicate (length ts) None \<and>
         sessions (snd (Logout_at ts token w)) =
           (if ts = [] then sessions w
            else map (\<lambda>s. if Token s = token
                            then s\<lparr>IsValid := False, LastActiveAt := last ts\<rparr> else s)
                   (sessions w))"
  using assms
proof (induction ts arbitrary: w)
  case Nil
  then show ?case by simp
next
  case (Cons t ts)
  let ?inv = "\<lambda>t. map (\<lambda>s. if Token s = token
                   then s\<lparr>IsValid := False, LastActiveAt := t\<rparr> else s)"
  let ?w1 = "(after_call w)\<lparr>clock := t, sessions := ?inv t (sessions w)\<rparr>"
  have p: "set (take (Suc (length ts)) (faults w)) \<subseteq> {None}"
    using Cons.prems by simp
  have nf: "next_fault w = None"
    using p by (rule no_fault_next)
  have l: "Logout token (w\<lparr>clock := t\<rparr>) = (None, ?w1)"
    by (simp add: Logout_eq nf)
  have f1: "set (take (length ts) (faults ?w1)) \<subseteq> {None}"
    using no_fault_after [OF p] by simp
  have ih: "fst (Logout_at ts token ?w1) = replicate (length ts) None"
    "sessions (snd (Logout_at ts token ?w1)) =
       (if ts = [] then ?inv t (sessions w) else ?inv (last ts) (sessions w))"
    using Cons.IH [OF f1] by (simp_all add: invalidate_twice)
  obtain errs w2 where r: "Logout_at ts token ?w1 = (errs, w2)"
    by (cases "Logout_at ts token ?w1")
  from ih r have "errs = replicate (length ts) None"
    "sessions w2 = (if ts = [] then ?inv t (sessions w) else ?inv (last ts) (sessions w))"
    by simp_all
  then show ?case
    by (simp add: l r)
qed

lemma session_after_invalidate:
  fixes ss :: "Session list"
  assumes "s \<in> set (map (\<lambda>s. if Token s = token
                   then s\<lparr>IsValid := False, LastActiveAt := t\<rparr> else s) ss)"
    and "Token s = token"
  shows "\<not> IsValid s"
proof -
  let ?f = "\<lambda>s. if Token s = token then s\<lparr>IsValid := False, LastActiveAt := t\<rparr> else s"
  from assms(1) have "s \<in> ?f ` set ss" by (simp only: set_map)
  then obtain x where x: "x \<in> set ss" "s = ?f x" by (rule imageE)
  show ?thesis
  proof (cases "Token x = token")
    case True
    with x(2) have "s = x\<lparr>IsValid := False, LastActiveAt := t\<rparr>"
      by (simp only: if_True simp_thms)
    then show ?thesis by simp
  next
    case False
    with x(2) have "s = x" by (simp only: if_False simp_thms)
    with False assms(2) show ?thesis by simp
  qed
qed

lemma other_session_kept:
  fixes ss :: "Session list"
  assumes "s \<in> set ss" and "Token s \<noteq> token"
  shows "s \<in> set (map (\<lambda>s. if Token s = token
                   then s\<lparr>IsValid := False, LastActiveAt := t\<rparr> else s) ss)"
proof -
  let ?f = "\<lambda>s. if Token s = token then s\<lparr>IsValid := False, LastActiveAt := t\<rparr> else s"
  have "?f s = s" using assms(2) by (simp only: if_False simp_thms)
  moreover have "?f s \<in> ?f ` set ss" using assms(1) by (rule imageI)
  ultimately have "s \<in> ?f ` set ss" by (simp only:)
  then show ?thesis by (simp only: set_map)
qed

lemma DeleteExpiredSessions_stmts:
  "stmts (snd (DeleteExpiredSessions w)) = Suc (stmts w)"
  by (simp add: DeleteExpiredSessions_def db_call_eq split: option.splits)

lemma Printf_stmts [simp]: "stmts (Printf msg w) = stmts w"
  by (simp add: Printf_def)

section \<open>C1: incrementing the failed-login counter\<close>

text \<open>
  C1, as stated, asks for one indivisible operation that increments the counter, returns
  the new value and sets the lock. The code sends two statements and returns an error
  only. At \<open>world_c1\<close> the first statement raises the counter from 4 to 5 and the second
  one fails: the caller gets the error, the counter stays at the threshold 5, and
  \<open>locked_until\<close> is not set.
\<close>

theorem IncrementFailedLoginAttempts_not_indivisible:
  "fst (IncrementFailedLoginAttempts 1 world_c1) = Some (ErrDB ''connection reset'') \<and>
   map FailedLoginAttempts (users (snd (IncrementFailedLoginAttempts 1 world_c1))) = [5] \<and>
   map LockedUntil (users (snd (IncrementFailedLoginAttempts 1 world_c1))) = [None]"
  by (simp add: IncrementFailedLoginAttempts_def Exec_users_def db_call_def world_c1_def
      world0_def alice_def Let_def)

text \<open>
  C1, amended: when the first statement reaches the store and the user has a row, the
  counter of every row of that user is raised by one in that single statement; the function
  returns no value besides the error. When the new counter of the row read back is below 5
  nothing else happens. Otherwise a second, separate statement sets \<open>locked_until\<close> to
  the current time plus 30 minutes; if that statement fails, its error is returned and the
  increment stays.
\<close>

theorem IncrementFailedLoginAttempts_two_statements:
  assumes ok: "next_fault w = None"
      and row: "find (\<lambda>r. UserID r = uid) (users w) = Some u"
  shows "let w1 = after_call w;
             bumped = map (\<lambda>r. if UserID r = uid
                          then r\<lparr>FailedLoginAttempts := FailedLoginAttempts r + 1,
                                 UpdatedAt := clock w\<rparr> else r) (users w);
             locked = map (\<lambda>r. if UserID r = uid
                          then r\<lparr>LockedUntil := Some (clock w + 30 * Minute),
                                 UpdatedAt := clock w\<rparr> else r) bumped
         in IncrementFailedLoginAttempts uid w =
              (if FailedLoginAttempts u + 1 < 5 then (None, w1\<lparr>users := bumped\<rparr>)
               else case next_fault w1 of
                      None \<Rightarrow> (None, (after_call w1)\<lparr>users := locked\<rparr>)
                    | Some m \<Rightarrow> (Some (ErrDB m), (after_call w1)\<lparr>users := bumped\<rparr>))"
  unfolding IncrementFailedLoginAttempts_def Let_def
  by (simp add: db_call_eq ok find_bump row Exec_users_eq split: option.splits)

theorem IncrementFailedLoginAttempts_two_statements_witness:
  "next_fault (world_c1\<lparr>faults := []\<rparr>) = None \<and>
   find (\<lambda>r. UserID r = 1) (users (world_c1\<lparr>faults := []\<rparr>))
     = Some (alice\<lparr>FailedLoginAttempts := 4\<rparr>) \<and>
   fst (IncrementFailedLoginAttempts 1 (world_c1\<lparr>faults := []\<rparr>)) = None \<and>
   users (snd (IncrementFailedLoginAttempts 1 (world_c1\<lparr>faults := []\<rparr>))) =
     [alice\<lparr>FailedLoginAttempts := 5, LockedUntil := Some (5000 + 30 * Minute),
            UpdatedAt := 5000\<rparr>]"
proof -
  have ok: "next_fault (world_c1\<lparr>faults := []\<rparr>) = None"
    by (simp add: next_fault_eq)
  have row: "find (\<lambda>r. UserID r = 1) (users (world_c1\<lparr>faults := []\<rparr>))
               = Some (alice\<lparr>FailedLoginAttempts := 4\<rparr>)"
    by (simp add: world_c1_def alice_def)
  show ?thesis
    using IncrementFailedLoginAttempts_two_statements [OF ok row] ok row
    by (simp add: Let_def next_fault_eq world_c1_def world0_def alice_def)
qed

section \<open>C2: validating a session\<close>

text \<open>
  C2: \<open>ValidateSession\<close> fails with \<open>ErrInvalidToken\<close> exactly when the lookup of the
  session reaches the store and no session carries the token, or the session's \<open>is_valid\<close>
  is false, or the clock is past \<open>expires_at\<close>; a lookup that fails is answered with the
  store's error, never with \<open>ErrInvalidToken\<close>. The boundary is exact: a valid session of
  an active user, with the store reachable, validates at every instant strictly before its
  expiry (the session and the user are returned) and fails with \<open>ErrInvalidToken\<close> at
  every instant strictly after it.
\<close>

theorem ValidateSession_InvalidToken_iff:
  "(fst (ValidateSession token w) = Inl ErrInvalidToken \<longleftrightarrow>
      next_fault w = None \<and>
      (case find (\<lambda>s. Token s = token) (sessions w) of
         None \<Rightarrow> True
       | Some s \<Rightarrow> \<not> IsValid s \<or> ExpiresAt s < clock w)) \<and>
   (\<forall>m. next_fault w = Some m \<longrightarrow> fst (ValidateSession token w) = Inl (ErrDB m)) \<and>
   (\<forall>s u. next_fault w = None \<and>
           find (\<lambda>s. Token s = token) (sessions w) = Some s \<and> IsValid s \<and>
           next_fault (after_call w) = None \<and>
           find (\<lambda>u. UserID u = UserID_s s) (users w) = Some u \<and> IsActive u \<longrightarrow>
           (clock w < ExpiresAt s \<longrightarrow> fst (ValidateSession token w) = Inr (s, u)) \<and>
           (ExpiresAt s < clock w \<longrightarrow> fst (ValidateSession token w) = Inl ErrInvalidToken))"
proof (cases "next_fault w")
  case None
  then show ?thesis
    by (auto simp: ValidateSession_def GetByToken_eq GetByID_def lookup_users_eq
        UpdateLastActiveAt_def Exec_sessions_eq split: option.splits)
next
  case (Some m)
  then show ?thesis
    by (simp add: ValidateSession_def GetByToken_eq)
qed

theorem ValidateSession_InvalidToken_iff_witness:
  "next_fault (world_c2 5999) = None \<and>
   fst (ValidateSession ''token-0'' (world_c2 5999)) = Inr (session1, alice) \<and>
   fst (ValidateSession ''token-0'' (world_c2 6001)) = Inl ErrInvalidToken \<and>
   fst (ValidateSession ''token-9'' (world_c2 5999)) = Inl ErrInvalidToken \<and>
   next_fault ((world_c2 5999)\<lparr>faults := [Some ''connection reset'']\<rparr>)
     = Some ''connection reset'' \<and>
   fst (ValidateSession ''token-9'' ((world_c2 5999)\<lparr>faults := [Some ''connection reset'']\<rparr>))
     = Inl (ErrDB ''connection reset'')"
proof -
  let ?down = "(world_c2 5999)\<lparr>faults := [Some ''connection reset'']\<rparr>"
  have ok: "next_fault (world_c2 t) = None" for t
    by (simp add: next_fault_eq world_c2_def world0_def)
  have found: "find (\<lambda>s. Token s = ''token-0'') (sessions (world_c2 t)) = Some session1" for t
    by (simp add: world_c2_def session1_def)
  have absent: "find (\<lambda>s. Token s = ''token-9'') (sessions (world_c2 t)) = None" for t
    by (simp add: world_c2_def session1_def)
  have user: "find (\<lambda>u. UserID u = UserID_s session1) (users (world_c2 t)) = Some alice" for t
    by (simp add: world_c2_def world0_def session1_def alice_def)
  have ok2: "next_fault (after_call (world_c2 t)) = None" for t
    by (simp add: next_fault_eq world_c2_def world0_def)
  have facts: "IsValid session1" "ExpiresAt session1 = 6000" "IsActive alice"
    "clock (world_c2 5999) = 5999" "clock (world_c2 6001) = 6001"
    by (simp_all add: session1_def alice_def world_c2_def)
  have down: "next_fault ?down = Some ''connection reset''"
    by (simp add: next_fault_eq)
  have d: "fst (ValidateSession ''token-9'' ?down) = Inl (ErrDB ''connection reset'')"
    using ValidateSession_InvalidToken_iff [of "''token-9''" ?down,
        THEN conjunct2, THEN conjunct1, THEN spec, THEN mp, OF down] .
  have rest: "fst (ValidateSession ''token-0'' (world_c2 5999)) = Inr (session1, alice) \<and>
   fst (ValidateSession ''token-0'' (world_c2 6001)) = Inl ErrInvalidToken \<and>
   fst (ValidateSession ''token-9'' (world_c2 5999)) = Inl ErrInvalidToken"
    using ValidateSession_InvalidToken_iff [of "''token-0''" "world_c2 5999"]
      ValidateSession_InvalidToken_iff [of "''token-0''" "world_c2 6001"]
      ValidateSession_InvalidToken_iff [of "''token-9''" "world_c2 5999"]
    by (simp add: ok found absent user ok2 facts)
  show ?thesis
    by (intro conjI ok down d rest [THEN conjunct1] rest [THEN conjunct2, THEN conjunct1]
        rest [THEN conjunct2, THEN conjunct2])
qed

section \<open>C3: a locked account\<close>

text \<open>
  C3: when the identifier resolves to a user (by email, or else by username) whose
  \<open>locked_until\<close> is set and still in the future, \<open>Login\<close> fails with \<open>ErrUserLocked\<close>
  for every password, correct or not, and for every behaviour of the password check; the
  tables are left as they were (no counter is touched, no session is created).
\<close>

theorem Login_locked_before_password:
  assumes resolved:
    "GetByEmail ident w = ((Some u, None), w') \<or>
     (fst (fst (GetByEmail ident w)) = None \<and>
      GetByUsername ident (snd (GetByEmail ident w)) = ((Some u, None), w'))"
    and locked: "LockedUntil u = Some t" "clock w < t"
  shows "Login s ident password ip ua w = (Inl ErrUserLocked, w') \<and>
         users w' = users w \<and> sessions w' = sessions w"
proof -
  have tables: "users w' = users w \<and> sessions w' = sessions w \<and> clock w' = clock w"
    using resolved GetByEmail_world [of ident w]
      GetByUsername_world [of ident "snd (GetByEmail ident w)"]
    by (metis after_call_fields(1,2,4) snd_conv)
  from resolved show ?thesis
  proof
    assume "GetByEmail ident w = ((Some u, None), w')"
    then show ?thesis
      using locked tables by (simp add: Login_def)
  next
    assume a: "fst (fst (GetByEmail ident w)) = None \<and>
      GetByUsername ident (snd (GetByEmail ident w)) = ((Some u, None), w')"
    obtain e0 w1 where g: "GetByEmail ident w = ((None, e0), w1)"
      using a by (metis prod.collapse)
    with a have "GetByUsername ident w1 = ((Some u, None), w')" by simp
    then show ?thesis
      using g locked tables by (simp add: Login_def)
  qed
qed

theorem Login_locked_before_password_witness:
  "GetByEmail ''alice@example.com'' world_c3
     = ((Some (alice\<lparr>FailedLoginAttempts := 5, LockedUntil := Some 9000\<rparr>), None),
        after_call world_c3) \<and>
   clock world_c3 < 9000 \<and>
   VerifyPassword world_c3 (alice\<lparr>FailedLoginAttempts := 5, LockedUntil := Some 9000\<rparr>)
     ''Secret123!'' \<and>
   Login auth ''alice@example.com'' ''Secret123!'' ''10.0.0.1'' ''curl'' world_c3
     = (Inl ErrUserLocked, after_call world_c3)"
proof -
  have r: "GetByEmail ''alice@example.com'' world_c3
     = ((Some (alice\<lparr>FailedLoginAttempts := 5, LockedUntil := Some 9000\<rparr>), None),
        after_call world_c3)"
    by (simp add: GetByEmail_eq next_fault_eq world_c3_def world0_def alice_def)
  have l: "LockedUntil (alice\<lparr>FailedLoginAttempts := 5, LockedUntil := Some 9000\<rparr>) = Some 9000"
    by simp
  have c: "clock world_c3 < 9000"
    by (simp add: world_c3_def world0_def)
  have v: "VerifyPassword world_c3 (alice\<lparr>FailedLoginAttempts := 5, LockedUntil := Some 9000\<rparr>)
     ''Secret123!''"
    by (simp add: VerifyPassword_def world_c3_def world0_def alice_def)
  show ?thesis
    using Login_locked_before_password [OF disjI1 [OF r] l c, of auth "''Secret123!''" "''10.0.0.1''" "''curl''"] r c v
    by simp
qed

text \<open>The scenario of the spec: five wrong passwords in a row, then the right one.\<close>

lemma five_failures_then_locked:
  "fst (Login_each auth ''alice@example.com''
         [''wrong'', ''wrong'', ''wrong'', ''wrong'', ''wrong'', ''Secret123!''] world0)
   = [Inl ErrInvalidCredentials, Inl ErrInvalidCredentials, Inl ErrInvalidCredentials,
      Inl ErrInvalidCredentials, Inl ErrInvalidCredentials, Inl ErrUserLocked]"
  by (simp add: Login_def GetByEmail_eq GetByUsername_eq next_fault_eq after_call_eq
        VerifyPassword_def IncrementFailedLoginAttempts_def Exec_users_def db_call_def
        world0_def alice_def Let_def Minute_def)

section \<open>C4: infrastructure errors\<close>

text \<open>
  C4 does not hold for the code. At \<open>world_c4\<close> the store is unreachable for the next
  call. \<open>Login\<close> overwrites the error of the lookup by email with the result of the lookup
  by username and answers \<open>ErrInvalidCredentials\<close>; \<open>VerifyEmail\<close> and \<open>ResetPassword\<close>
  answer \<open>ErrInvalidToken\<close> for any error of their lookup, although the tokens presented
  are the pending ones.
\<close>

theorem infrastructure_error_becomes_domain_error:
  "fst (Login auth ''alice@example.com'' ''Secret123!'' ''10.0.0.1'' ''curl'' world_c4)
     = Inl ErrInvalidCredentials \<and>
   fst (VerifyEmail ''verify-1'' world_c4) = Some ErrInvalidToken \<and>
   fst (ResetPassword ''reset-1'' ''NewPass456!'' world_c4) = Some ErrInvalidToken"
  by (simp add: Login_def GetByEmail_eq GetByUsername_eq VerifyEmail_def ResetPassword_def
      QueryRow_users_def db_call_def next_fault_eq after_call_eq world_c4_def world0_def alice_def)

text \<open>With the store reachable the same three requests succeed.\<close>

lemma reachable_store_accepts_the_same_requests:
  "fst (VerifyEmail ''verify-1'' (world_c4\<lparr>faults := []\<rparr>)) = None \<and>
   fst (ResetPassword ''reset-1'' ''NewPass456!'' (world_c4\<lparr>faults := []\<rparr>)) = None \<and>
   (case fst (Login auth ''alice@example.com'' ''Secret123!'' ''10.0.0.1'' ''curl''
            (world_c4\<lparr>faults := []\<rparr>)) of Inl e \<Rightarrow> False | Inr session \<Rightarrow> True)"
  by (simp add: Login_def GetByEmail_eq GetByUsername_eq VerifyEmail_def ResetPassword_def
      UpdatePassword_def Exec_users_def VerifyPassword_def generateSecureToken_def Create_s_def
      RecordLogin_def createAuditLog_def uuid_New_def uuid_Nil_def Let_def
      QueryRow_users_def db_call_def next_fault_eq after_call_eq world_c4_def world0_def alice_def)

section \<open>C5: registration conflicts\<close>

text \<open>
  C5: with the store reachable, \<open>Register\<close> looks the email up first. If a row has the
  email, it fails with \<open>ErrEmailAlreadyExists\<close> after that single lookup, whatever the
  username. If no row has the email and a row has the username, it fails with
  \<open>ErrUsernameAlreadyExists\<close> after the second lookup.
\<close>

theorem Register_duplicate_checks:
  assumes ok: "next_fault w = None"
  shows "((\<exists>u\<in>set (users w). Email u = email) \<longrightarrow>
            Register username email password firstName lastName w
              = (Inl ErrEmailAlreadyExists, after_call w)) \<and>
         ((\<forall>u\<in>set (users w). Email u \<noteq> email) \<and> next_fault (after_call w) = None \<and>
          (\<exists>u\<in>set (users w). Username u = username) \<longrightarrow>
            Register username email password firstName lastName w
              = (Inl ErrUsernameAlreadyExists, after_call (after_call w)))"
proof (intro conjI impI)
  assume "\<exists>u\<in>set (users w). Email u = email"
  then obtain u where "find (\<lambda>u. Email u = email) (users w) = Some u"
    by (cases "find (\<lambda>u. Email u = email) (users w)") (auto simp: find_None_iff)
  then show "Register username email password firstName lastName w
              = (Inl ErrEmailAlreadyExists, after_call w)"
    by (simp add: Register_def GetByEmail_eq ok)
next
  assume a: "(\<forall>u\<in>set (users w). Email u \<noteq> email) \<and> next_fault (after_call w) = None \<and>
          (\<exists>u\<in>set (users w). Username u = username)"
  then have e: "find (\<lambda>u. Email u = email) (users w) = None"
    by (auto simp: find_None_iff)
  from a obtain u where n: "find (\<lambda>u. Username u = username) (users w) = Some u"
    by (cases "find (\<lambda>u. Username u = username) (users w)") (auto simp: find_None_iff)
  show "Register username email password firstName lastName w
              = (Inl ErrUsernameAlreadyExists, after_call (after_call w))"
    using a by (simp add: Register_def GetByEmail_eq GetByUsername_eq ok e n)
qed

theorem Register_duplicate_checks_witness:
  "next_fault world0 = None \<and>
   Register ''bob'' ''alice@example.com'' ''Hunter2!'' ''Bob'' ''B'' world0
     = (Inl ErrEmailAlreadyExists, after_call world0) \<and>
   Register ''alice'' ''bob@example.com'' ''Hunter2!'' ''Bob'' ''B'' world0
     = (Inl ErrUsernameAlreadyExists, after_call (after_call world0))"
proof -
  have ok: "next_fault world0 = None" "next_fault (after_call world0) = None"
    by (simp_all add: next_fault_eq world0_def)
  have rows: "\<exists>u\<in>set (users world0). Email u = ''alice@example.com''"
    "\<forall>u\<in>set (users world0). Email u \<noteq> ''bob@example.com''"
    "\<exists>u\<in>set (users world0). Username u = ''alice''"
    by (simp_all add: world0_def alice_def)
  show ?thesis
    using Register_duplicate_checks [OF ok(1), of "''alice@example.com''" "''bob''" "''Hunter2!''" "''Bob''" "''B''"]
      Register_duplicate_checks [OF ok(1), of "''bob@example.com''" "''alice''" "''Hunter2!''" "''Bob''" "''B''"]
      ok rows
    by simp
qed

section \<open>C6: asking for a password reset\<close>

text \<open>
  C6: with the store reachable, \<open>ForgotPassword\<close> for an email that no row has returns
  the empty token and no error, and leaves the tables alone. For an email that a row has,
  with a token drawn from the random source and the write reaching the store, it returns
  that token, and the row found by that email afterwards is the same user's and carries the
  token and the expiry \<open>now + 24 hours\<close>.
\<close>

theorem ForgotPassword_token:
  assumes ok: "next_fault w = None"
  shows "(find (\<lambda>u. Email u = email) (users w) = None \<longrightarrow>
            ForgotPassword email w = (([], None), after_call w)) \<and>
         (\<forall>u tok rest.
            find (\<lambda>u. Email u = email) (users w) = Some u \<and> rand_src w = Some tok # rest \<and>
            next_fault (after_call w) = None \<longrightarrow>
            fst (ForgotPassword email w) = (tok, None) \<and>
            (\<exists>r. find (\<lambda>r. Email r = email) (users (snd (ForgotPassword email w))) = Some r \<and>
                 UserID r = UserID u \<and> PasswordResetToken r = Some tok \<and>
                 PasswordResetExpiresAt r = Some (clock w + 24 * Hour)))"
proof (rule conjI)
  show "find (\<lambda>u. Email u = email) (users w) = None \<longrightarrow>
            ForgotPassword email w = (([], None), after_call w)"
    by (simp add: ForgotPassword_def GetByEmail_eq ok)
next
  have "fst (ForgotPassword email w) = (tok, None) \<and>
            (\<exists>r. find (\<lambda>r. Email r = email) (users (snd (ForgotPassword email w))) = Some r \<and>
                 UserID r = UserID u \<and> PasswordResetToken r = Some tok \<and>
                 PasswordResetExpiresAt r = Some (clock w + 24 * Hour))"
    if a: "find (\<lambda>u. Email u = email) (users w) = Some u \<and> rand_src w = Some tok # rest \<and>
            next_fault (after_call w) = None" for u tok rest
  proof -
  let ?f = "\<lambda>r. r\<lparr>Username := Username u, Email := Email u,
                               FirstName := FirstName u, LastName := LastName u,
                               IsEmailVerified := IsEmailVerified u,
                               EmailVerificationToken := EmailVerificationToken u,
                               EmailVerificationSentAt := EmailVerificationSentAt u,
                               PasswordResetToken := Some tok,
                               PasswordResetExpiresAt := Some (clock w + 24 * Hour),
                               FailedLoginAttempts := FailedLoginAttempts u,
                               LockedUntil := LockedUntil u,
                               LastLoginAt := LastLoginAt u,
                               UpdatedAt := clock w,
                               IsActive := IsActive u\<rparr>"
  have mem: "u \<in> set (users w)" "Email u = email"
    using a find_Some_mem [of "\<lambda>u. Email u = email" "users w" u] by simp_all
  then have ex: "list_ex (\<lambda>r. UserID r = UserID u) (users w)"
    by (auto simp: list_ex_iff)
  have own: "list_ex (\<lambda>r. UserID r = UserID u \<and> Username r = Username u) (users w)"
    "list_ex (\<lambda>r. UserID r = UserID u \<and> Email r = Email u) (users w)"
    unfolding list_ex_iff by (rule bexI [of _ u]; simp add: mem)+
  have run: "ForgotPassword email w =
      ((tok, None), (after_call (after_call w))\<lparr>rand_src := rest,
         users := map (\<lambda>r. if UserID r = UserID u then ?f r else r) (users w)\<rparr>)"
    using a ex own
    by (simp add: ForgotPassword_def GetByEmail_eq ok generateSecureToken_def Update_def
        Let_def db_call_eq)
  obtain r where r: "UserID r = UserID u"
      "find (\<lambda>r. Email r = email) (map (\<lambda>r. if UserID r = UserID u then ?f r else r) (users w))
         = Some (?f r)"
    using find_after_update [of "\<lambda>r. Email r = email" "users w" u
        "\<lambda>r. UserID r = UserID u" ?f] a mem by auto
  show ?thesis
    using r by (simp add: run)
  qed
  then show "\<forall>u tok rest.
            find (\<lambda>u. Email u = email) (users w) = Some u \<and> rand_src w = Some tok # rest \<and>
            next_fault (after_call w) = None \<longrightarrow>
            fst (ForgotPassword email w) = (tok, None) \<and>
            (\<exists>r. find (\<lambda>r. Email r = email) (users (snd (ForgotPassword email w))) = Some r \<and>
                 UserID r = UserID u \<and> PasswordResetToken r = Some tok \<and>
                 PasswordResetExpiresAt r = Some (clock w + 24 * Hour))"
    by blast
qed


theorem ForgotPassword_token_witness:
  "next_fault world0 = None \<and>
   ForgotPassword ''nobody@example.com'' world0 = (([], None), after_call world0) \<and>
   fst (ForgotPassword ''alice@example.com'' world0) = (''token-1'', None) \<and>
   (\<exists>r. find (\<lambda>r. Email r = ''alice@example.com'')
          (users (snd (ForgotPassword ''alice@example.com'' world0))) = Some r \<and>
        UserID r = UserID alice \<and> PasswordResetToken r = Some ''token-1'' \<and>
        PasswordResetExpiresAt r = Some (clock world0 + 24 * Hour))"
proof -
  have ok: "next_fault world0 = None" "next_fault (after_call world0) = None"
    by (simp_all add: next_fault_eq world0_def)
  have absent: "find (\<lambda>u. Email u = ''nobody@example.com'') (users world0) = None"
    by (simp add: world0_def alice_def)
  have present: "find (\<lambda>u. Email u = ''alice@example.com'') (users world0) = Some alice"
    by (simp add: world0_def alice_def)
  have rnd: "rand_src world0 = Some ''token-1'' # [Some ''token-2'']"
    by (simp add: world0_def)
  show ?thesis
    using ForgotPassword_token [OF ok(1), of "''nobody@example.com''"]
      ForgotPassword_token [OF ok(1), of "''alice@example.com''"]
      ok absent present rnd
    by simp
qed

section \<open>C7: overwriting the password\<close>

text \<open>
  C7: \<open>UpdatePassword\<close> sends at most one statement. When the hash is computed and the
  statement reaches the store, it returns no error and that one statement leaves every row
  of the user with the new hash, no reset token and no reset expiry, and every other row as
  before. If it returns an error the users are unchanged; if it returns no error, exactly
  one statement was sent and the rows are as just said: the outcome is either the old
  state or the state with all three columns written. \<open>ResetPassword\<close> and
  \<open>ChangePassword\<close> end in that call once their lookup has accepted the request, and then
  write the same three columns.
\<close>

theorem UpdatePassword_single_write:
  shows "stmts (snd (UpdatePassword uid pw w)) \<le> Suc (stmts w) \<and>
   (fst (UpdatePassword uid pw w) \<noteq> None \<longrightarrow>
      users (snd (UpdatePassword uid pw w)) = users w) \<and>
   (fst (UpdatePassword uid pw w) = None \<longrightarrow>
      (\<exists>h. bcrypt_generate w pw = Inr h \<and>
           stmts (snd (UpdatePassword uid pw w)) = Suc (stmts w) \<and>
           users (snd (UpdatePassword uid pw w)) =
             map (\<lambda>u. if UserID u = uid
                       then u\<lparr>PasswordHash := h, PasswordResetToken := None,
                              PasswordResetExpiresAt := None, UpdatedAt := clock w\<rparr>
                       else u) (users w) \<and>
           (\<forall>r\<in>set (users (snd (UpdatePassword uid pw w))). UserID r = uid \<longrightarrow>
              PasswordHash r = h \<and> PasswordResetToken r = None \<and>
              PasswordResetExpiresAt r = None))) \<and>
   (\<forall>token u. next_fault w = None \<and>
      find (\<lambda>u. PasswordResetToken u = Some token \<and>
                 (case PasswordResetExpiresAt u of None \<Rightarrow> False | Some t \<Rightarrow> t > clock w))
        (users w) = Some u \<longrightarrow>
      ResetPassword token pw w = UpdatePassword (UserID u) pw (after_call w)) \<and>
   (\<forall>u cur. next_fault w = None \<and> find (\<lambda>u. UserID u = uid) (users w) = Some u \<and>
      VerifyPassword w u cur \<longrightarrow>
      ChangePassword uid cur pw w = UpdatePassword uid pw (after_call w)) \<and>
   (\<forall>h. bcrypt_generate w pw = Inr h \<and> next_fault w = None \<longrightarrow>
      UpdatePassword uid pw w =
        (None, (after_call w)\<lparr>users :=
           map (\<lambda>u. if UserID u = uid
                     then u\<lparr>PasswordHash := h, PasswordResetToken := None,
                            PasswordResetExpiresAt := None, UpdatedAt := clock w\<rparr>
                     else u) (users w)\<rparr>)) \<and>
   (\<forall>token u h. next_fault w = None \<and>
      find (\<lambda>u. PasswordResetToken u = Some token \<and>
                 (case PasswordResetExpiresAt u of None \<Rightarrow> False | Some t \<Rightarrow> t > clock w))
        (users w) = Some u \<and>
      bcrypt_generate w pw = Inr h \<and> next_fault (after_call w) = None \<longrightarrow>
      ResetPassword token pw w =
        (None, (after_call (after_call w))\<lparr>users :=
           map (\<lambda>r. if UserID r = UserID u
                     then r\<lparr>PasswordHash := h, PasswordResetToken := None,
                            PasswordResetExpiresAt := None, UpdatedAt := clock w\<rparr>
                     else r) (users w)\<rparr>)) \<and>
   (\<forall>u cur h. next_fault w = None \<and> find (\<lambda>u. UserID u = uid) (users w) = Some u \<and>
      VerifyPassword w u cur \<and>
      bcrypt_generate w pw = Inr h \<and> next_fault (after_call w) = None \<longrightarrow>
      ChangePassword uid cur pw w =
        (None, (after_call (after_call w))\<lparr>users :=
           map (\<lambda>r. if UserID r = uid
                     then r\<lparr>PasswordHash := h, PasswordResetToken := None,
                            PasswordResetExpiresAt := None, UpdatedAt := clock w\<rparr>
                     else r) (users w)\<rparr>))"
  (is "?once \<and> ?failed \<and> ?stored \<and> ?reset \<and> ?change \<and> ?writes \<and> ?reset_writes \<and>
       ?change_writes")
proof -
  have core: "?once \<and> ?failed \<and> ?stored"
  proof (cases "bcrypt_generate w pw")
    case (Inl e)
    then have eq: "UpdatePassword uid pw w = (Some e, w)"
      by (simp add: UpdatePassword_eq [of uid pw w])
    show ?thesis
      by (simp add: eq)
  next
    case h: (Inr h)
    show ?thesis
    proof (cases "next_fault w")
      case None
      let ?us = "map (\<lambda>u. if UserID u = uid
                       then u\<lparr>PasswordHash := h, PasswordResetToken := None,
                              PasswordResetExpiresAt := None, UpdatedAt := clock w\<rparr>
                       else u) (users w)"
      have eq: "UpdatePassword uid pw w = (None, (after_call w)\<lparr>users := ?us\<rparr>)"
        using h None by (simp add: UpdatePassword_eq [of uid pw w])
      have once: ?once
        by (simp add: eq)
      have failed: ?failed
        by (simp add: eq)
      have u: "users (snd (UpdatePassword uid pw w)) = ?us"
        by (simp add: eq)
      have st: "stmts (snd (UpdatePassword uid pw w)) = Suc (stmts w)"
        by (simp add: eq)
      have rows: "\<forall>r\<in>set (users (snd (UpdatePassword uid pw w))). UserID r = uid \<longrightarrow>
            PasswordHash r = h \<and> PasswordResetToken r = None \<and> PasswordResetExpiresAt r = None"
        unfolding u by (intro ballI impI) (rule row_after_write, assumption+)
      have stored: ?stored
        by (rule impI, rule exI [of _ h], intro conjI h st u rows)
      show ?thesis
        by (intro conjI once failed stored)
    next
      case (Some m)
      with h have eq: "UpdatePassword uid pw w = (Some (ErrDB m), after_call w)"
        by (simp add: UpdatePassword_eq [of uid pw w])
      show ?thesis
        by (simp add: eq)
    qed
  qed
  have d: ?reset
    by (intro allI impI) (elim conjE, rule ResetPassword_found)
  have e: ?change
    by (intro allI impI) (elim conjE, rule ChangePassword_verified)
  have f: ?writes
    by (simp add: UpdatePassword_eq [of uid pw w])
  have g: ?reset_writes
    by (simp add: ResetPassword_found UpdatePassword_eq)
  have i: ?change_writes
    by (simp add: ChangePassword_verified UpdatePassword_eq)
  show ?thesis
    by (intro conjI core [THEN conjunct1] core [THEN conjunct2, THEN conjunct1]
        core [THEN conjunct2, THEN conjunct2] d e f g i)
qed


theorem UpdatePassword_single_write_witness:
  "bcrypt_generate world_c7 ''NewPass456!'' = Inr ''bcrypt:NewPass456!'' \<and>
   next_fault world_c7 = None \<and>
   map PasswordResetToken (users world_c7) = [Some ''reset-1''] \<and>
   fst (UpdatePassword 1 ''NewPass456!'' world_c7) = None \<and>
   stmts (snd (UpdatePassword 1 ''NewPass456!'' world_c7)) = 1 \<and>
   map PasswordHash (users (snd (UpdatePassword 1 ''NewPass456!'' world_c7)))
     = [''bcrypt:NewPass456!''] \<and>
   map PasswordResetToken (users (snd (UpdatePassword 1 ''NewPass456!'' world_c7))) = [None] \<and>
   map PasswordResetExpiresAt (users (snd (UpdatePassword 1 ''NewPass456!'' world_c7))) = [None] \<and>
   fst (ResetPassword ''reset-1'' ''NewPass456!'' world_c7) = None \<and>
   map PasswordHash (users (snd (ResetPassword ''reset-1'' ''NewPass456!'' world_c7)))
     = [''bcrypt:NewPass456!''] \<and>
   map PasswordResetToken (users (snd (ResetPassword ''reset-1'' ''NewPass456!'' world_c7)))
     = [None] \<and>
   fst (ChangePassword 1 ''Secret123!'' ''NewPass456!'' world_c7) = None \<and>
   map PasswordHash (users (snd (ChangePassword 1 ''Secret123!'' ''NewPass456!'' world_c7)))
     = [''bcrypt:NewPass456!''] \<and>
   map PasswordResetToken (users (snd (ChangePassword 1 ''Secret123!'' ''NewPass456!'' world_c7)))
     = [None]"
proof -
  let ?a = "alice\<lparr>EmailVerificationToken := Some ''verify-1'',
                   PasswordResetToken := Some ''reset-1'',
                   PasswordResetExpiresAt := Some 9000\<rparr>"
  have hg: "bcrypt_generate world_c7 ''NewPass456!'' = Inr ''bcrypt:NewPass456!''"
    by (simp add: world_c7_def world_c4_def world0_def)
  have nf: "next_fault world_c7 = None" "next_fault (after_call world_c7) = None"
    by (simp_all add: next_fault_eq world_c7_def world_c4_def world0_def)
  have before: "map PasswordResetToken (users world_c7) = [Some ''reset-1'']"
    by (simp add: world_c7_def world_c4_def)
  have by_token: "find (\<lambda>u. PasswordResetToken u = Some ''reset-1'' \<and>
                 (case PasswordResetExpiresAt u of None \<Rightarrow> False
                  | Some t \<Rightarrow> t > clock world_c7)) (users world_c7) = Some ?a"
    by (simp add: world_c7_def world_c4_def world0_def)
  have by_id: "find (\<lambda>u. UserID u = 1) (users world_c7) = Some ?a"
    by (simp add: world_c7_def world_c4_def alice_def)
  have vp: "VerifyPassword world_c7 ?a ''Secret123!''"
    by (simp add: VerifyPassword_def world_c7_def world_c4_def world0_def alice_def)
  note sw = UpdatePassword_single_write [of 1 "''NewPass456!''" world_c7]
  note wr = sw [THEN conjunct2, THEN conjunct2, THEN conjunct2, THEN conjunct2,
      THEN conjunct2, THEN conjunct1, THEN spec, THEN mp, OF conjI [OF hg nf(1)]]
  note rs = sw [THEN conjunct2, THEN conjunct2, THEN conjunct2, THEN conjunct2,
      THEN conjunct2, THEN conjunct2, THEN conjunct1, THEN spec, THEN spec, THEN spec, THEN mp,
      OF conjI [OF nf(1) conjI [OF by_token conjI [OF hg nf(2)]]]]
  note ch = sw [THEN conjunct2, THEN conjunct2, THEN conjunct2, THEN conjunct2,
      THEN conjunct2, THEN conjunct2, THEN conjunct2, THEN spec, THEN spec, THEN spec, THEN mp,
      OF conjI [OF nf(1) conjI [OF by_id conjI [OF vp conjI [OF hg nf(2)]]]]]
  have u1: "fst (UpdatePassword 1 ''NewPass456!'' world_c7) = None"
    unfolding wr by simp
  have u2: "stmts (snd (UpdatePassword 1 ''NewPass456!'' world_c7)) = 1"
    unfolding wr by (simp add: world_c7_def world_c4_def world0_def)
  have u3: "map PasswordHash (users (snd (UpdatePassword 1 ''NewPass456!'' world_c7)))
     = [''bcrypt:NewPass456!'']"
    unfolding wr by (simp add: world_c7_def world_c4_def alice_def)
  have u4: "map PasswordResetToken (users (snd (UpdatePassword 1 ''NewPass456!'' world_c7)))
     = [None]"
    unfolding wr by (simp add: world_c7_def world_c4_def alice_def)
  have u5: "map PasswordResetExpiresAt (users (snd (UpdatePassword 1 ''NewPass456!'' world_c7)))
     = [None]"
    unfolding wr by (simp add: world_c7_def world_c4_def alice_def)
  have r1: "fst (ResetPassword ''reset-1'' ''NewPass456!'' world_c7) = None"
    unfolding rs by simp
  have r2: "map PasswordHash (users (snd (ResetPassword ''reset-1'' ''NewPass456!'' world_c7)))
     = [''bcrypt:NewPass456!'']"
    unfolding rs by (simp add: world_c7_def world_c4_def alice_def)
  have r3: "map PasswordResetToken
      (users (snd (ResetPassword ''reset-1'' ''NewPass456!'' world_c7))) = [None]"
    unfolding rs by (simp add: world_c7_def world_c4_def alice_def)
  have c1: "fst (ChangePassword 1 ''Secret123!'' ''NewPass456!'' world_c7) = None"
    unfolding ch by simp
  have c2: "map PasswordHash
      (users (snd (ChangePassword 1 ''Secret123!'' ''NewPass456!'' world_c7)))
     = [''bcrypt:NewPass456!'']"
    unfolding ch by (simp add: world_c7_def world_c4_def alice_def)
  have c3: "map PasswordResetToken
      (users (snd (ChangePassword 1 ''Secret123!'' ''NewPass456!'' world_c7))) = [None]"
    unfolding ch by (simp add: world_c7_def world_c4_def alice_def)
  show ?thesis
    by (intro conjI hg nf(1) before u1 u2 u3 u4 u5 r1 r2 r3 c1 c2 c3)
qed

section \<open>C8: logging out\<close>

text \<open>
  C8: when the \<open>Logout\<close> calls made do not meet a failure of the store (whatever the
  store does afterwards), any number of \<open>Logout\<close> calls for a token, made at any instants
  and from any state of the sessions (the token's session valid, already invalid, or
  absent), all return no error. After one call or more, the sessions are exactly as after
  the last call alone: every session with the token has \<open>is_valid = false\<close> (and the
  instant of the last call as \<open>last_active_at\<close>), and the sessions with other tokens are
  untouched.
\<close>

theorem Logout_idempotent:
  assumes nofault: "set (take (length ts) (faults w)) \<subseteq> {None}"
  shows "fst (Logout_at ts token w) = replicate (length ts) None \<and>
         (ts \<noteq> [] \<longrightarrow>
            sessions (snd (Logout_at ts token w))
              = sessions (snd (Logout_at [last ts] token w)) \<and>
            (\<forall>s\<in>set (sessions (snd (Logout_at ts token w))). Token s = token \<longrightarrow> \<not> IsValid s) \<and>
            (\<forall>s\<in>set (sessions w). Token s \<noteq> token \<longrightarrow>
               s \<in> set (sessions (snd (Logout_at ts token w)))) \<and>
            sessions (snd (Logout_at ts token w))
              = map (\<lambda>s. if Token s = token
                          then s\<lparr>IsValid := False, LastActiveAt := last ts\<rparr> else s)
                  (sessions w))"
proof (rule conjI)
  show "fst (Logout_at ts token w) = replicate (length ts) None"
    using Logout_at_sessions [OF nofault, of token] by (rule conjunct1)
next
  have "sessions (snd (Logout_at ts token w))
              = sessions (snd (Logout_at [last ts] token w)) \<and>
            (\<forall>s\<in>set (sessions (snd (Logout_at ts token w))). Token s = token \<longrightarrow> \<not> IsValid s) \<and>
            (\<forall>s\<in>set (sessions w). Token s \<noteq> token \<longrightarrow>
               s \<in> set (sessions (snd (Logout_at ts token w)))) \<and>
            sessions (snd (Logout_at ts token w))
              = map (\<lambda>s. if Token s = token
                          then s\<lparr>IsValid := False, LastActiveAt := last ts\<rparr> else s)
                  (sessions w)"
    if ne: "ts \<noteq> []"
  proof -
    let ?inv = "map (\<lambda>s. if Token s = token
                   then s\<lparr>IsValid := False, LastActiveAt := last ts\<rparr> else s) (sessions w)"
    have "1 \<le> length ts"
      using ne by (cases ts) simp_all
    then have "set (take 1 (faults w)) \<subseteq> set (take (length ts) (faults w))"
      by (rule set_take_subset_set_take)
    with nofault have first: "set (take (length [last ts]) (faults w)) \<subseteq> {None}"
      by simp
    have many: "sessions (snd (Logout_at ts token w)) = ?inv"
      using Logout_at_sessions [OF nofault, of token] ne by simp
    have one: "sessions (snd (Logout_at [last ts] token w)) = ?inv"
      using Logout_at_sessions [OF first, of token] by simp
    have a: "sessions (snd (Logout_at ts token w))
              = sessions (snd (Logout_at [last ts] token w))"
      by (simp only: many one)
    have b: "\<forall>s\<in>set (sessions (snd (Logout_at ts token w))). Token s = token \<longrightarrow> \<not> IsValid s"
      unfolding many by (intro ballI impI) (rule session_after_invalidate, assumption+)
    have c: "\<forall>s\<in>set (sessions w). Token s \<noteq> token \<longrightarrow>
               s \<in> set (sessions (snd (Logout_at ts token w)))"
      unfolding many by (intro ballI impI) (rule other_session_kept, assumption+)
    show ?thesis
      by (intro conjI a b c many)
  qed
  then show "ts \<noteq> [] \<longrightarrow>
            sessions (snd (Logout_at ts token w))
              = sessions (snd (Logout_at [last ts] token w)) \<and>
            (\<forall>s\<in>set (sessions (snd (Logout_at ts token w))). Token s = token \<longrightarrow> \<not> IsValid s) \<and>
            (\<forall>s\<in>set (sessions w). Token s \<noteq> token \<longrightarrow>
               s \<in> set (sessions (snd (Logout_at ts token w)))) \<and>
            sessions (snd (Logout_at ts token w))
              = map (\<lambda>s. if Token s = token
                          then s\<lparr>IsValid := False, LastActiveAt := last ts\<rparr> else s)
                  (sessions w)"
    by (rule impI)
qed

theorem Logout_idempotent_witness:
  "set (take (length [5100, 5200, 5300 :: int]) (faults world_c8)) \<subseteq> {None} \<and>
   fst (Logout_at [5100, 5200, 5300] ''token-0'' world_c8) = [None, None, None] \<and>
   map IsValid (sessions (snd (Logout_at [5100, 5200, 5300] ''token-0'' world_c8)))
     = [False, False] \<and>
   sessions (snd (Logout_at [5100, 5200, 5300] ''token-0'' world_c8))
     = sessions (snd (Logout_at [5300] ''token-0'' world_c8)) \<and>
   fst (Logout_at [5100, 5200] ''token-8'' world_c8) = [None, None] \<and>
   fst (Logout_at [5100, 5200] ''token-9'' world_c8) = [None, None] \<and>
   set (take (length [5100 :: int]) (faults world_c8_late_fault)) \<subseteq> {None} \<and>
   faults world_c8_late_fault = [None, Some ''connection reset''] \<and>
   map IsValid (sessions world_c8_late_fault) = [True, False] \<and>
   fst (Logout_at [5100] ''token-0'' world_c8_late_fault) = [None] \<and>
   map IsValid (sessions (snd (Logout_at [5100] ''token-0'' world_c8_late_fault)))
     = [False, False]"
proof -
  have nf: "set (take (length ts) (faults world_c8)) \<subseteq> {None}" for ts :: "time list"
    by (simp add: world_c8_def world0_def)
  have nfl: "set (take (length [5100 :: int]) (faults world_c8_late_fault)) \<subseteq> {None}"
    by (simp add: world_c8_late_fault_def)
  have fl: "faults world_c8_late_fault = [None, Some ''connection reset'']"
    by (simp add: world_c8_late_fault_def)
  have before: "map IsValid (sessions world_c8_late_fault) = [True, False]"
    by (simp add: world_c8_late_fault_def world_c8_def session1_def)
  note a = Logout_idempotent [OF nf, of "[5100, 5200, 5300]" "''token-0''"]
  note b = Logout_idempotent [OF nf, of "[5100, 5200]" "''token-8''"]
  note c = Logout_idempotent [OF nf, of "[5100, 5200]" "''token-9''"]
  note d = Logout_idempotent [OF nfl, of "''token-0''"]
  have ne: "[5100, 5200, 5300] \<noteq> ([] :: time list)" "[5100] \<noteq> ([] :: time list)"
    by simp_all
  note a' = a [THEN conjunct2, THEN mp, OF ne(1)]
  note d' = d [THEN conjunct2, THEN mp, OF ne(2)]
  note a_map = a' [THEN conjunct2, THEN conjunct2, THEN conjunct2]
  note d_map = d' [THEN conjunct2, THEN conjunct2, THEN conjunct2]
  have a1: "fst (Logout_at [5100, 5200, 5300] ''token-0'' world_c8) = [None, None, None]"
    using a [THEN conjunct1] by (simp add: numeral_3_eq_3)
  have a2: "sessions (snd (Logout_at [5100, 5200, 5300] ''token-0'' world_c8))
     = sessions (snd (Logout_at [5300] ''token-0'' world_c8))"
    using a' [THEN conjunct1] by simp
  have a3: "map IsValid (sessions (snd (Logout_at [5100, 5200, 5300] ''token-0'' world_c8)))
     = [False, False]"
    unfolding a_map by (simp add: world_c8_def session1_def)
  have b1: "fst (Logout_at [5100, 5200] ''token-8'' world_c8) = [None, None]"
    using b [THEN conjunct1] by (simp add: numeral_2_eq_2)
  have c1: "fst (Logout_at [5100, 5200] ''token-9'' world_c8) = [None, None]"
    using c [THEN conjunct1] by (simp add: numeral_2_eq_2)
  have d1: "fst (Logout_at [5100] ''token-0'' world_c8_late_fault) = [None]"
    using d [THEN conjunct1] by simp
  have d2: "map IsValid (sessions (snd (Logout_at [5100] ''token-0'' world_c8_late_fault)))
     = [False, False]"
    unfolding d_map by (simp add: world_c8_late_fault_def world_c8_def session1_def)
  show ?thesis
    by (intro conjI nf nfl fl before a1 a2 a3 b1 c1 d1 d2)
qed

section \<open>C9: the cleanup task\<close>

text \<open>
  C9 does not hold for the code as \<open>main\<close> wires it. The task is started with
  \<open>context.Background()\<close>, which the shutdown signal never cancels: at \<open>world_c9\<close> the
  ticker fires (the delete fails and is logged), the shutdown signal arrives, and the ticker
  fires again; the task has not returned and has run its second delete after the signal.
\<close>

theorem cleanup_ignores_shutdown_signal:
  "fst (main_cleanup [TickerFired, ShutdownSignal, TickerFired] world_c9) = False \<and>
   stmts (snd (main_cleanup [TickerFired, ShutdownSignal, TickerFired] world_c9)) = 2 \<and>
   sessions (snd (main_cleanup [TickerFired, ShutdownSignal, TickerFired] world_c9)) = [] \<and>
   console (snd (main_cleanup [TickerFired, ShutdownSignal, TickerFired] world_c9))
     = [''Error cleaning up expired sessions'', ''Cleaned up expired sessions'']"
  by (simp add: main_cleanup_def DeleteExpiredSessions_def db_call_def Printf_def world_c9_def
      world_c2_def world0_def session1_def)

text \<open>While the process lives (its exit is not part of the model), no event makes the task
  started by \<open>main\<close> return; it runs one delete for each tick, failed ticks included.
  Started with a context that does get cancelled, the loop returns at the cancellation.\<close>

lemma main_cleanup_never_returns:
  "fst (main_cleanup es w) = False"
  unfolding main_cleanup_def
  by (induction es arbitrary: w) (simp_all split: prod.splits option.splits)

lemma cleanup_returns_when_its_context_is_done:
  "fst (scheduleSessionCleanup (WithTimeout k) (es @ ContextCancelled k # es') w) = True"
  by (induction es arbitrary: w) (simp_all split: prod.splits option.splits)

lemma cleanup_one_delete_per_tick:
  "stmts (snd (main_cleanup es w)) = stmts w + length (filter (\<lambda>e. e = TickerFired) es)"
  unfolding main_cleanup_def
proof (induction es arbitrary: w)
  case Nil
  then show ?case by simp
next
  case (Cons e es)
  show ?case
  proof (cases "e = TickerFired")
    case True
    obtain count err w1 where d: "DeleteExpiredSessions w = ((count, err), w1)"
      by (metis prod.collapse)
    then have s: "stmts w1 = Suc (stmts w)"
      using DeleteExpiredSessions_stmts [of w] by simp
    show ?thesis
      using True d s by (cases err) (simp_all add: Cons.IH)
  next
    case False
    then show ?thesis by (simp add: Cons.IH)
  qed
qed

section \<open>C10: a failed login that leaves a session\<close>

text \<open>
  C10: when the user is resolved, not locked and the password verifies, the token is
  drawn, the session row is inserted, and the write of \<open>RecordLogin\<close> then fails, \<open>Login\<close>
  returns that error; the session stays in the store, is the one found by its token, and
  is valid with the expiry \<open>Login\<close> computed. Nothing deletes or invalidates it.
\<close>

theorem Login_RecordLogin_failure_keeps_session:
  assumes resolved:
    "GetByEmail ident w = ((Some u, None), w2) \<or>
     (fst (fst (GetByEmail ident w)) = None \<and>
      GetByUsername ident (snd (GetByEmail ident w)) = ((Some u, None), w2))"
    and unlocked: "LockedUntil u = None \<or> (\<exists>t. LockedUntil u = Some t \<and> t \<le> clock w2)"
    and password: "VerifyPassword w2 u password"
    and token: "generateSecureToken 32 w2 = ((tok, None), w3)"
    and created:
      "Create_s \<lparr>SessionID = uuid_Nil, UserID_s = UserID u, Token = tok, IPAddress = ip,
                 UserAgent = ua,
                 ExpiresAt = clock w3 + Duration_Minutes (tokenExpiryMin s),
                 CreatedAt_s = 0, LastActiveAt = 0, IsValid = True\<rparr> w3
         = ((session', None), w4)"
    and record_fails: "RecordLogin (UserID u) w4 = (Some e, w5)"
  shows "Login s ident password ip ua w = (Inl e, w5) \<and>
         find (\<lambda>x. Token x = tok) (sessions w5) = Some session' \<and>
         IsValid session' \<and> UserID_s session' = UserID u \<and>
         ExpiresAt session' = clock w3 + Duration_Minutes (tokenExpiryMin s)"
proof -
  have nl: "(case LockedUntil u of None \<Rightarrow> False | Some t \<Rightarrow> clock w2 < t) = False"
    using unlocked by (auto split: option.splits)
  have login: "Login s ident password ip ua w = (Inl e, w5)"
    using resolved
  proof
    assume "GetByEmail ident w = ((Some u, None), w2)"
    then show ?thesis
      using nl password token created record_fails by (simp add: Login_def Let_def)
  next
    assume a: "fst (fst (GetByEmail ident w)) = None \<and>
      GetByUsername ident (snd (GetByEmail ident w)) = ((Some u, None), w2)"
    obtain e0 w1 where g: "GetByEmail ident w = ((None, e0), w1)"
      using a by (metis prod.collapse)
    with a have "GetByUsername ident w1 = ((Some u, None), w2)" by simp
    then show ?thesis
      using g nl password token created record_fails by (simp add: Login_def Let_def)
  qed
  have w5: "sessions w5 = sessions w4"
    using RecordLogin_failure [OF record_fails] by simp
  have "find (\<lambda>x. Token x = tok) (sessions w5) = Some session'"
    using Create_s_success(1,2,3) [OF created] w5 by (simp add: find_append_new)
  then show ?thesis
    using login Create_s_success(4,5,6) [OF created] by simp
qed

theorem Login_RecordLogin_failure_keeps_session_witness:
  "fst (Login auth ''alice@example.com'' ''Secret123!'' ''10.0.0.1'' ''curl'' world_c10)
     = Inl (ErrDB ''connection reset'') \<and>
   find (\<lambda>x. Token x = ''token-1'')
     (sessions (snd (Login auth ''alice@example.com'' ''Secret123!'' ''10.0.0.1'' ''curl''
        world_c10))) = Some session_c10 \<and>
   IsValid session_c10 \<and>
   fst (ValidateSession ''token-1''
     (snd (Login auth ''alice@example.com'' ''Secret123!'' ''10.0.0.1'' ''curl'' world_c10)))
     = Inr (session_c10, alice)"
proof -
  let ?w2 = "after_call world_c10"
  let ?w3 = "?w2\<lparr>rand_src := [Some ''token-2'']\<rparr>"
  let ?sess = "\<lparr>SessionID = uuid_Nil, UserID_s = UserID alice, Token = ''token-1'',
                IPAddress = ''10.0.0.1'', UserAgent = ''curl'',
                ExpiresAt = clock ?w3 + Duration_Minutes (tokenExpiryMin auth),
                CreatedAt_s = 0, LastActiveAt = 0, IsValid = True\<rparr>"
  let ?w4 = "snd (Create_s ?sess ?w3)"
  let ?w5 = "after_call ?w4"
  have r: "GetByEmail ''alice@example.com'' world_c10 = ((Some alice, None), ?w2)"
    by (simp add: GetByEmail_eq next_fault_eq world_c10_def world0_def alice_def)
  have unlocked: "LockedUntil alice = None \<or> (\<exists>t. LockedUntil alice = Some t \<and> t \<le> clock ?w2)"
    by (simp add: alice_def)
  have pw: "VerifyPassword ?w2 alice ''Secret123!''"
    by (simp add: VerifyPassword_def world_c10_def world0_def alice_def)
  have tok: "generateSecureToken 32 ?w2 = ((''token-1'', None), ?w3)"
    by (simp add: generateSecureToken_def world_c10_def world0_def)
  have cr: "Create_s ?sess ?w3 = ((session_c10, None), ?w4)"
    by (simp add: Create_s_def Let_def uuid_New_def uuid_Nil_def db_call_def after_call_eq
        world_c10_def world0_def alice_def session_c10_def auth_def Duration_Minutes_60)
  have rl: "RecordLogin (UserID alice) ?w4 = (Some (ErrDB ''connection reset''), ?w5)"
    by (simp add: RecordLogin_def Exec_users_eq Create_s_def Let_def uuid_New_def uuid_Nil_def
        db_call_def after_call_eq next_fault_eq world_c10_def world0_def alice_def)
  note kept = Login_RecordLogin_failure_keeps_session [OF disjI1 [OF r] unlocked pw tok cr rl]
  have v: "fst (ValidateSession ''token-1'' ?w5) = Inr (session_c10, alice)"
    by (simp add: ValidateSession_def GetByToken_eq GetByID_def lookup_users_eq
        UpdateLastActiveAt_def Exec_sessions_eq Create_s_def Let_def uuid_New_def uuid_Nil_def
        db_call_def after_call_eq next_fault_eq world_c10_def world0_def alice_def
        session_c10_def auth_def Duration_Minutes_60)
  show ?thesis
    using kept v by simp
qed

end
